theory Spec2Isabelle
  imports Complex_Main "HOL-Library.Word"
begin

section \<open>The scalar type\<close>

text \<open>
  \<^verbatim>\<open>using Float = float;\<close> (math.h). The model reads a \<^verbatim>\<open>Float\<close> as an exact real number
  or one of the two infinities: no rounding, no overflow and no NaN. The comparison is the
  usual total order with \<open>NInf\<close> least and \<open>PInf\<close> greatest. Arithmetic is the exact
  arithmetic on finite operands; on an infinite operand only negation is specified, every
  other operation is left without an equation (nothing below depends on its value).
\<close>

datatype Float = NInf | Fin real | PInf

instantiation Float :: linorder
begin

fun less_eq_Float :: "Float \<Rightarrow> Float \<Rightarrow> bool" where
  "less_eq_Float NInf b = True"
| "less_eq_Float (Fin a) NInf = False"
| "less_eq_Float (Fin a) (Fin b) = (a \<le> b)"
| "less_eq_Float (Fin a) PInf = True"
| "less_eq_Float PInf NInf = False"
| "less_eq_Float PInf (Fin b) = False"
| "less_eq_Float PInf PInf = True"

definition less_Float :: "Float \<Rightarrow> Float \<Rightarrow> bool" where
  "less_Float a b = (a \<le> b \<and> \<not> b \<le> a)"

instance
proof
  fix a b c :: Float
  show "(a < b) = (a \<le> b \<and> \<not> b \<le> a)"
    by (simp add: less_Float_def)
  show "a \<le> a"
    by (cases a) simp_all
  show "a \<le> b \<Longrightarrow> b \<le> c \<Longrightarrow> a \<le> c"
    by (cases a; cases b; cases c) simp_all
  show "a \<le> b \<Longrightarrow> b \<le> a \<Longrightarrow> a = b"
    by (cases a; cases b) simp_all
  show "a \<le> b \<or> b \<le> a"
    by (cases a; cases b) auto
qed

end

instantiation Float :: "{zero, one, plus, minus, uminus, times}"
begin

definition zero_Float :: Float where
  "zero_Float = Fin 0"

definition one_Float :: Float where
  "one_Float = Fin 1"

fun plus_Float :: "Float \<Rightarrow> Float \<Rightarrow> Float" where
  "plus_Float (Fin a) (Fin b) = Fin (a + b)"

fun minus_Float :: "Float \<Rightarrow> Float \<Rightarrow> Float" where
  "minus_Float (Fin a) (Fin b) = Fin (a - b)"

fun times_Float :: "Float \<Rightarrow> Float \<Rightarrow> Float" where
  "times_Float (Fin a) (Fin b) = Fin (a * b)"

fun uminus_Float :: "Float \<Rightarrow> Float" where
  "uminus_Float NInf = PInf"
| "uminus_Float (Fin a) = Fin (- a)"
| "uminus_Float PInf = NInf"

instance ..

end

section \<open>Vectors and matrices (math.h)\<close>

text \<open>
  \<^verbatim>\<open>template <typename T, SIMD Opt> struct TVec3\<close>, \<^verbatim>\<open>TVec4\<close>: the components
  \<^verbatim>\<open>x, y, z(, w)\<close>. The selectors carry the type's name, since \<open>x\<close>, \<open>y\<close>, \<open>z\<close> are
  needed as variable names.
\<close>

datatype 'a TVec3 = TVec3 (TVec3_x: 'a) (TVec3_y: 'a) (TVec3_z: 'a)

datatype 'a TVec4 = TVec4 (TVec4_x: 'a) (TVec4_y: 'a) (TVec4_z: 'a) (TVec4_w: 'a)

text \<open>
  \<^verbatim>\<open>TMat3\<close> and \<^verbatim>\<open>TMat4\<close> hold \<^verbatim>\<open>VecT v_[NC]\<close>, the columns; \<^verbatim>\<open>m[i]\<close> is column \<open>i\<close>
  and \<^verbatim>\<open>m[i][j]\<close> its component \<open>j\<close>.
\<close>

datatype 'a TMat3 = TMat3 (TMat3_v0: "'a TVec3") (TMat3_v1: "'a TVec3") (TMat3_v2: "'a TVec3")

datatype 'a TMat4 = TMat4 (TMat4_v0: "'a TVec4") (TMat4_v1: "'a TVec4") (TMat4_v2: "'a TVec4")
  (TMat4_v3: "'a TVec4")

text \<open>
  The constructor from an initializer list, the one \<^verbatim>\<open>MatT{ ... }\<close> selects:
  \<^verbatim>\<open>for i, for j: v_[i][j] = l.begin()[i*NC+j]\<close>.
\<close>

definition TMat3_init :: "'a list \<Rightarrow> 'a TMat3" where
  "TMat3_init l =
     TMat3 (TVec3 (l ! 0) (l ! 1) (l ! 2))
           (TVec3 (l ! 3) (l ! 4) (l ! 5))
           (TVec3 (l ! 6) (l ! 7) (l ! 8))"

definition TMat4_init :: "'a list \<Rightarrow> 'a TMat4" where
  "TMat4_init l =
     TMat4 (TVec4 (l ! 0) (l ! 1) (l ! 2) (l ! 3))
           (TVec4 (l ! 4) (l ! 5) (l ! 6) (l ! 7))
           (TVec4 (l ! 8) (l ! 9) (l ! 10) (l ! 11))
           (TVec4 (l ! 12) (l ! 13) (l ! 14) (l ! 15))"

text \<open>
  The constructor of \<^verbatim>\<open>TVec3\<close> from an initializer list, in all three specialisations:
  \<^verbatim>\<open>x = l.begin()[0]; y = l.begin()[1]; z = l.begin()[2];\<close>. It does not look at the
  length of the list. A read at or behind the end of the list has no defined result in
  C++; what it finds is whatever the memory behind the list holds. The model takes that
  content as the parameter \<open>behind\<close>, \<open>behind k\<close> for the place \<open>k\<close> after the last
  element, so that what the code goes on to compute from it can be stated.
\<close>

definition read_begin :: "(nat \<Rightarrow> 'a) \<Rightarrow> 'a list \<Rightarrow> nat \<Rightarrow> 'a" where
  "read_begin behind l k = (if k < length l then l ! k else behind (k - length l))"

definition TVec3_init :: "(nat \<Rightarrow> 'a) \<Rightarrow> 'a list \<Rightarrow> 'a TVec3" where
  "TVec3_init behind l =
     TVec3 (read_begin behind l 0) (read_begin behind l 1) (read_begin behind l 2)"

text \<open>\<^verbatim>\<open>static auto Identity() -> MatT { return MatT{ 1,0,0, 0,1,0, 0,1,0 }; }\<close> (TMat3)\<close>

definition TMat3_Identity :: "'a::{zero,one} TMat3" where
  "TMat3_Identity = TMat3_init [1, 0, 0,  0, 1, 0,  0, 1, 0]"

text \<open>\<^verbatim>\<open>return MatT{ 1,0,0,0, 0,1,0,0, 0,0,1,0, 0,0,0,1 };\<close> (TMat4)\<close>

definition TMat4_Identity :: "'a::{zero,one} TMat4" where
  "TMat4_Identity = TMat4_init [1, 0, 0, 0,  0, 1, 0, 0,  0, 0, 1, 0,  0, 0, 0, 1]"

text \<open>
  \<^verbatim>\<open>operator+(v1, v2)\<close> and \<^verbatim>\<open>operator*(v, s)\<close> on 3-vectors: one operation per component
  (the loop of the generic template, the lanes of the SSE one).
\<close>

definition add_TVec3 :: "'a::plus TVec3 \<Rightarrow> 'a TVec3 \<Rightarrow> 'a TVec3" where
  "add_TVec3 v1 v2 =
     TVec3 (TVec3_x v1 + TVec3_x v2) (TVec3_y v1 + TVec3_y v2) (TVec3_z v1 + TVec3_z v2)"

definition scale_TVec3 :: "'a::times TVec3 \<Rightarrow> 'a \<Rightarrow> 'a TVec3" where
  "scale_TVec3 v s = TVec3 (TVec3_x v * s) (TVec3_y v * s) (TVec3_z v * s)"

text \<open>
  \<^verbatim>\<open>operator*(const TMat3& m, const TVec3& v)\<close>:
  \<^verbatim>\<open>m[0][0] * v.x + m[1][0] * v.y + m[2][0] * v.z\<close>, and the same for rows 1 and 2.
\<close>

definition mult_TMat3_TVec3 :: "'a::{plus,times} TMat3 \<Rightarrow> 'a TVec3 \<Rightarrow> 'a TVec3" where
  "mult_TMat3_TVec3 m v =
     TVec3
       (TVec3_x (TMat3_v0 m) * TVec3_x v + TVec3_x (TMat3_v1 m) * TVec3_y v
          + TVec3_x (TMat3_v2 m) * TVec3_z v)
       (TVec3_y (TMat3_v0 m) * TVec3_x v + TVec3_y (TMat3_v1 m) * TVec3_y v
          + TVec3_y (TMat3_v2 m) * TVec3_z v)
       (TVec3_z (TMat3_v0 m) * TVec3_x v + TVec3_z (TMat3_v1 m) * TVec3_y v
          + TVec3_z (TMat3_v2 m) * TVec3_z v)"

text \<open>
  \<^verbatim>\<open>operator*(const TMat3& m1, const TMat3& m2)\<close>:
  \<^verbatim>\<open>TMat3(m1 * m2[0], m1 * m2[1], m1 * m2[2])\<close>.
\<close>

definition mult_TMat3 :: "'a::{plus,times} TMat3 \<Rightarrow> 'a TMat3 \<Rightarrow> 'a TMat3" where
  "mult_TMat3 m1 m2 =
     TMat3 (mult_TMat3_TVec3 m1 (TMat3_v0 m2)) (mult_TMat3_TVec3 m1 (TMat3_v1 m2))
       (mult_TMat3_TVec3 m1 (TMat3_v2 m2))"

text \<open>
  \<^verbatim>\<open>operator*(const TMat4<float, SIMD::SSE>& m, const TVec4<float, SIMD::SSE>& v)\<close>, the
  overload taken for \<^verbatim>\<open>Mat4 * Vec4\<close>: in every lane
  \<^verbatim>\<open>(m[0] * v.x + m[1] * v.y) + (m[2] * v.z + m[3] * v.w)\<close>.
\<close>

definition mult_TMat4_TVec4 :: "'a::{plus,times} TMat4 \<Rightarrow> 'a TVec4 \<Rightarrow> 'a TVec4" where
  "mult_TMat4_TVec4 m v =
     TVec4
       ((TVec4_x (TMat4_v0 m) * TVec4_x v + TVec4_x (TMat4_v1 m) * TVec4_y v)
          + (TVec4_x (TMat4_v2 m) * TVec4_z v + TVec4_x (TMat4_v3 m) * TVec4_w v))
       ((TVec4_y (TMat4_v0 m) * TVec4_x v + TVec4_y (TMat4_v1 m) * TVec4_y v)
          + (TVec4_y (TMat4_v2 m) * TVec4_z v + TVec4_y (TMat4_v3 m) * TVec4_w v))
       ((TVec4_z (TMat4_v0 m) * TVec4_x v + TVec4_z (TMat4_v1 m) * TVec4_y v)
          + (TVec4_z (TMat4_v2 m) * TVec4_z v + TVec4_z (TMat4_v3 m) * TVec4_w v))
       ((TVec4_w (TMat4_v0 m) * TVec4_x v + TVec4_w (TMat4_v1 m) * TVec4_y v)
          + (TVec4_w (TMat4_v2 m) * TVec4_z v + TVec4_w (TMat4_v3 m) * TVec4_w v))"

text \<open>\<^verbatim>\<open>using Vec3 = TVec3<Float, SIMD::Default>;\<close> and its siblings.\<close>

type_synonym Vec3 = "Float TVec3"
type_synonym Vec4 = "Float TVec4"
type_synonym Mat3 = "Float TMat3"
type_synonym Mat4 = "Float TMat4"

text \<open>
  Modelled from the spec: \<^verbatim>\<open>Math::Inf\<close>, \<^verbatim>\<open>Math::Min\<close>, \<^verbatim>\<open>Math::Max\<close>, the
  one-argument constructor \<^verbatim>\<open>Vec3(Float)\<close> of \<^verbatim>\<open>Vec3(Math::Eps())\<close> and the conversion
  \<^verbatim>\<open>Vec3(Vec4)\<close> are used by bound.h and accel\_bvh.cpp but are not in math.h. The spec
  gives \<open>+infinity\<close> for \<^verbatim>\<open>Math::Inf\<close> and the union as the componentwise minimum and
  maximum; the one-argument constructor sets every component (the spec: \<open>expanded outward
  on each axis\<close>), the conversion drops \<open>w\<close>.
\<close>

definition Math_Inf :: Float where
  "Math_Inf = PInf"

definition Vec3_of_Float :: "Float \<Rightarrow> Vec3" where
  "Vec3_of_Float s = TVec3 s s s"

definition Vec3_of_Vec4 :: "Vec4 \<Rightarrow> Vec3" where
  "Vec3_of_Vec4 v = TVec3 (TVec4_x v) (TVec4_y v) (TVec4_z v)"

definition Math_Min :: "Vec3 \<Rightarrow> Vec3 \<Rightarrow> Vec3" where
  "Math_Min a b =
     TVec3 (min (TVec3_x a) (TVec3_x b)) (min (TVec3_y a) (TVec3_y b))
       (min (TVec3_z a) (TVec3_z b))"

definition Math_Max :: "Vec3 \<Rightarrow> Vec3 \<Rightarrow> Vec3" where
  "Math_Max a b =
     TVec3 (max (TVec3_x a) (TVec3_x b)) (max (TVec3_y a) (TVec3_y b))
       (max (TVec3_z a) (TVec3_z b))"

section \<open>Bounds (bound.h)\<close>

text \<open>\<^verbatim>\<open>struct Bound { Vec3 min{ Math::Inf() }; Vec3 max{ -Math::Inf() }; };\<close>\<close>

record Bound =
  bound_min :: Vec3
  bound_max :: Vec3

text \<open>
  The default member initialisers are list-initialisations, \<^verbatim>\<open>Vec3 min{ Math::Inf() }\<close>,
  and \<^verbatim>\<open>TVec3\<close> has a constructor from \<^verbatim>\<open>std::initializer_list\<close>: that constructor is the
  one selected, with a list of one element. So only \<open>x\<close> is \<open>+infinity\<close> (\<open>-infinity\<close> for
  \<^verbatim>\<open>max\<close>); \<open>y\<close> and \<open>z\<close> are read behind the list. \<open>Stale\<close> holds what lies behind the
  two lists of one default construction, as values of \<open>Float\<close>: numbers or infinities. A
  NaN found there is outside the model.
\<close>

record Stale =
  behind_min :: "nat \<Rightarrow> Float"
  behind_max :: "nat \<Rightarrow> Float"

definition Bound_new :: "Stale \<Rightarrow> Bound" where
  "Bound_new s =
     \<lparr>bound_min = TVec3_init (behind_min s) [Math_Inf],
      bound_max = TVec3_init (behind_max s) [- Math_Inf]\<rparr>"

text \<open>
  The box that the spec describes as the default, \<open>min = +infinity, max = -infinity\<close> on
  every axis. It is not what \<open>Bound_new\<close> computes; it is here to be compared with it.
\<close>

definition spec_empty_box :: Bound where
  "spec_empty_box =
     \<lparr>bound_min = Vec3_of_Float Math_Inf, bound_max = Vec3_of_Float (- Math_Inf)\<rparr>"

text \<open>
  \<^verbatim>\<open>Math::Union(const Bound& a, const Bound& b)\<close>. Its local \<^verbatim>\<open>Bound r;\<close> is default
  constructed as well, but both members are assigned before \<^verbatim>\<open>r\<close> is returned.
\<close>

definition Union_Bound :: "Bound \<Rightarrow> Bound \<Rightarrow> Bound" where
  "Union_Bound a b =
     \<lparr>bound_min = Math_Min (bound_min a) (bound_min b),
      bound_max = Math_Max (bound_max a) (bound_max b)\<rparr>"

text \<open>\<^verbatim>\<open>Math::Union(const Bound& a, const Vec3& p)\<close>\<close>

definition Union_Point :: "Bound \<Rightarrow> Vec3 \<Rightarrow> Bound" where
  "Union_Point a p =
     \<lparr>bound_min = Math_Min (bound_min a) p, bound_max = Math_Max (bound_max a) p\<rparr>"

text \<open>
  Vocabulary of the statements: \<open>Vec3_le\<close> compares componentwise, \<open>encloses a b\<close> says
  that box \<open>b\<close> does not leave box \<open>a\<close> on any axis, \<open>point_box p\<close> is the degenerate
  box at \<open>p\<close>.
\<close>

definition Vec3_le :: "Vec3 \<Rightarrow> Vec3 \<Rightarrow> bool" where
  "Vec3_le a b =
     (TVec3_x a \<le> TVec3_x b \<and> TVec3_y a \<le> TVec3_y b \<and> TVec3_z a \<le> TVec3_z b)"

definition encloses :: "Bound \<Rightarrow> Bound \<Rightarrow> bool" where
  "encloses a b = (Vec3_le (bound_min a) (bound_min b) \<and> Vec3_le (bound_max b) (bound_max a))"

definition point_box :: "Vec3 \<Rightarrow> Bound" where
  "point_box p = \<lparr>bound_min = p, bound_max = p\<rparr>"

section \<open>Reads that the code does not check\<close>

text \<open>
  \<^verbatim>\<open>ps[k]\<close> on a raw pointer and \<^verbatim>\<open>operator[]\<close> of \<^verbatim>\<open>std::vector\<close> are unchecked: a read
  outside the array has no defined result, and the model stops there with
  \<open>OutOfBounds\<close>. \<^verbatim>\<open>nodes_.at(idx)\<close> is checked and throws \<^verbatim>\<open>std::out_of_range\<close>:
  \<open>OutOfRange\<close>. These reads leave their array for some inputs only. The reads of
  \<open>TVec3_init\<close> behind its list are made by every default construction of a \<^verbatim>\<open>Bound\<close>,
  on every input; they are the one place where the model goes on with the value found.
\<close>

datatype fault = OutOfBounds | OutOfRange

definition read_at :: "'a list \<Rightarrow> nat \<Rightarrow> fault + 'a" where
  "read_at xs k = (if k < length xs then Inr (xs ! k) else Inl OutOfBounds)"

definition and_then :: "fault + 'a \<Rightarrow> ('a \<Rightarrow> fault + 'b) \<Rightarrow> fault + 'b" where
  "and_then r f = (case r of Inl e \<Rightarrow> Inl e | Inr v \<Rightarrow> f v)"

section \<open>Scene data read by the accelerator\<close>

text \<open>
  trianglemesh.h, primitive.h and scene.h are not among the sources; the model keeps what
  accel\_bvh.cpp reads from them: \<^verbatim>\<open>mesh->Positions()\<close> (a \<^verbatim>\<open>const Float*\<close>),
  \<^verbatim>\<open>mesh->Faces()\<close> (a \<^verbatim>\<open>const unsigned int*\<close>), \<^verbatim>\<open>mesh->NumFaces()\<close>, \<^verbatim>\<open>prim->mesh\<close>
  (a pointer that may be null), \<^verbatim>\<open>prim->transform\<close>, and the scene as the sequence that
  \<^verbatim>\<open>NumPrimitives\<close> and \<^verbatim>\<open>PrimitiveAt\<close> enumerate. Counters that start at 0 and only
  grow are \<open>nat\<close> (the wrap of a C++ \<^verbatim>\<open>int\<close> at \<open>2^31\<close> is not modelled); the vertex indices
  of a face are \<^verbatim>\<open>unsigned int\<close> and keep their 32 bits.
\<close>

record TriangleMesh =
  Positions :: "Float list"
  Faces :: "32 word list"
  NumFaces :: nat

record Primitive =
  mesh :: "TriangleMesh option"
  transform :: Mat4

type_synonym Scene = "Primitive list"

definition PrimitiveAt :: "Scene \<Rightarrow> nat \<Rightarrow> fault + Primitive" where
  "PrimitiveAt scene i = read_at scene i"

text \<open>
  \<^verbatim>\<open>TriAccelTriangle\<close> (triaccel.h, not among the sources): \<^verbatim>\<open>faceIndex\<close>, \<^verbatim>\<open>primIndex\<close>
  and what \<^verbatim>\<open>Load(p1, p2, p3)\<close> stores, kept here as the three world-space vertices
  themselves.
\<close>

record TriAccelTriangle =
  faceIndex :: nat
  primIndex :: nat
  loaded :: "Vec3 \<times> Vec3 \<times> Vec3"

text \<open>
  \<^verbatim>\<open>struct BVHNode\<close>. The anonymous union overlays \<^verbatim>\<open>leaf.begin\<close> with
  \<^verbatim>\<open>internal.child1\<close> (\<open>slot0\<close>) and \<^verbatim>\<open>leaf.end\<close> with \<^verbatim>\<open>internal.child2\<close> (\<open>slot1\<close>).
\<close>

record BVHNode =
  isleaf :: bool
  bound :: Bound
  slot0 :: nat
  slot1 :: nat

text \<open>
  \<^verbatim>\<open>new BVHNode\<close>: the bound is default constructed; \<^verbatim>\<open>isleaf\<close> and the union are
  indeterminate until \<^verbatim>\<open>Build_\<close> writes them, which it does before anything reads them.
  The model gives them fixed values.
\<close>

definition BVHNode_new :: "Stale \<Rightarrow> BVHNode" where
  "BVHNode_new s = \<lparr>isleaf = False, bound = Bound_new s, slot0 = 0, slot1 = 0\<rparr>"

text \<open>
  The members \<^verbatim>\<open>triangles_\<close> and \<^verbatim>\<open>nodes_\<close> of \<^verbatim>\<open>class Accel_BVH\<close> (a name cannot end
  in an underscore here).
\<close>

record Accel_BVH =
  accel_triangles :: "TriAccelTriangle list"
  accel_nodes :: "BVHNode list"

definition Accel_BVH_new :: Accel_BVH where
  "Accel_BVH_new = \<lparr>accel_triangles = [], accel_nodes = []\<rparr>"

section \<open>Build (accel\_bvh.cpp)\<close>

text \<open>
  \<^verbatim>\<open>Vec4(ps[3 * i1], ps[3 * i1 + 1], ps[3 * i1 + 2], 1_f)\<close> with \<^verbatim>\<open>unsigned int i1\<close>: the
  index arithmetic is unsigned and wraps at \<open>2^32\<close>.
\<close>

definition position_at :: "Float list \<Rightarrow> 32 word \<Rightarrow> fault + Vec4" where
  "position_at ps i1 =
     and_then (read_at ps (unat (3 * i1))) (\<lambda>px.
     and_then (read_at ps (unat (3 * i1 + 1))) (\<lambda>py.
     and_then (read_at ps (unat (3 * i1 + 2))) (\<lambda>pz.
     Inr (TVec4 px py pz 1))))"

text \<open>
  What \<^verbatim>\<open>Build\<close> takes from its surroundings and not from the scene:
  \<^item> \<open>Math_Eps\<close>, the value of \<^verbatim>\<open>Math::Eps()\<close>, which is not in math.h;
  \<^item> \<open>sub_assign\<close> and \<open>add_assign\<close>, the \<^verbatim>\<open>-=\<close> and \<^verbatim>\<open>+=\<close> of the float type on one
    component. The code rounds there and a \<open>Float\<close> of the model is an exact real, so the
    two operations are parameters: the model does not say that they are exact, and in
    particular not that subtracting \<^verbatim>\<open>Math::Eps()\<close> moves a corner;
  \<^item> \<open>behind_bound k\<close>, what lies behind the lists of the \<^verbatim>\<open>Bound bound;\<close> of line 102
    when it is constructed for entry \<open>k\<close> of \<^verbatim>\<open>bounds_\<close>;
  \<^item> \<open>behind_node idx\<close>, the same for the bound of the \<^verbatim>\<open>new BVHNode\<close> of node \<open>idx\<close>.
\<close>

record Machine =
  Math_Eps :: Float
  sub_assign :: "Float \<Rightarrow> Float \<Rightarrow> Float"
  add_assign :: "Float \<Rightarrow> Float \<Rightarrow> Float"
  behind_bound :: "nat \<Rightarrow> Stale"
  behind_node :: "nat \<Rightarrow> Stale"

text \<open>
  Lines 102 to 105: \<^verbatim>\<open>Bound bound; bound = Math::Union(bound, p1); ... (p2); ... (p3);\<close>
\<close>

definition vertices_bound :: "Stale \<Rightarrow> Vec3 \<Rightarrow> Vec3 \<Rightarrow> Vec3 \<Rightarrow> Bound" where
  "vertices_bound s p1 p2 p3 =
     Union_Point (Union_Point (Union_Point (Bound_new s) p1) p2) p3"

text \<open>
  Lines 106 and 107: \<^verbatim>\<open>bound.min -= Vec3(Math::Eps()); bound.max += Vec3(Math::Eps());\<close>,
  with \<^verbatim>\<open>operator-=\<close> as \<^verbatim>\<open>x -= v.x; y -= v.y; z -= v.z;\<close> and \<^verbatim>\<open>operator+=\<close> alike.
\<close>

definition expand :: "Machine \<Rightarrow> Bound \<Rightarrow> Bound" where
  "expand env b =
     (let e = Vec3_of_Float (Math_Eps env)
      in \<lparr>bound_min = TVec3 (sub_assign env (TVec3_x (bound_min b)) (TVec3_x e))
                              (sub_assign env (TVec3_y (bound_min b)) (TVec3_y e))
                              (sub_assign env (TVec3_z (bound_min b)) (TVec3_z e)),
          bound_max = TVec3 (add_assign env (TVec3_x (bound_max b)) (TVec3_x e))
                              (add_assign env (TVec3_y (bound_max b)) (TVec3_y e))
                              (add_assign env (TVec3_z (bound_max b)) (TVec3_z e))\<rparr>)"

text \<open>The bound pushed as entry \<open>k\<close> of \<^verbatim>\<open>bounds_\<close>, for the triangle \<open>tri\<close>.\<close>

definition triangle_bound :: "Machine \<Rightarrow> nat \<Rightarrow> TriAccelTriangle \<Rightarrow> Bound" where
  "triangle_bound env k tri =
     (case loaded tri of (p1, p2, p3) \<Rightarrow>
        expand env (vertices_bound (behind_bound env k) p1 p2 p3))"

text \<open>
  The body of the loop over the faces (lines 90 to 108), for face \<open>j\<close> of primitive \<open>i\<close>:
  the triangle is appended to \<^verbatim>\<open>triangles_\<close>, its bound to the local \<^verbatim>\<open>bounds_\<close>.
\<close>

definition create_triaccel ::
  "Machine \<Rightarrow> Primitive \<Rightarrow> nat \<Rightarrow> TriangleMesh \<Rightarrow> nat
    \<Rightarrow> TriAccelTriangle list \<times> Bound list \<Rightarrow> fault + TriAccelTriangle list \<times> Bound list" where
  "create_triaccel env prim i m j acc =
     and_then (read_at (Faces m) (3 * j)) (\<lambda>i1.
     and_then (read_at (Faces m) (3 * j + 1)) (\<lambda>i2.
     and_then (read_at (Faces m) (3 * j + 2)) (\<lambda>i3.
     and_then (position_at (Positions m) i1) (\<lambda>v1.
     and_then (position_at (Positions m) i2) (\<lambda>v2.
     and_then (position_at (Positions m) i3) (\<lambda>v3.
       let p1 = Vec3_of_Vec4 (mult_TMat4_TVec4 (transform prim) v1);
           p2 = Vec3_of_Vec4 (mult_TMat4_TVec4 (transform prim) v2);
           p3 = Vec3_of_Vec4 (mult_TMat4_TVec4 (transform prim) v3);
           tri = \<lparr>faceIndex = j, primIndex = i, loaded = (p1, p2, p3)\<rparr>
       in Inr (fst acc @ [tri], snd acc @ [triangle_bound env (length (snd acc)) tri])))))))"

text \<open>\<^verbatim>\<open>for (int j = 0; j < mesh->NumFaces(); j++)\<close>, over the list of the values of \<open>j\<close>.\<close>

fun faces_loop ::
  "Machine \<Rightarrow> Primitive \<Rightarrow> nat \<Rightarrow> TriangleMesh \<Rightarrow> nat list
    \<Rightarrow> TriAccelTriangle list \<times> Bound list \<Rightarrow> fault + TriAccelTriangle list \<times> Bound list" where
  "faces_loop env prim i m [] acc = Inr acc"
| "faces_loop env prim i m (j # js) acc =
     (case create_triaccel env prim i m j acc of
        Inl e \<Rightarrow> Inl e
      | Inr acc' \<Rightarrow> faces_loop env prim i m js acc')"

text \<open>
  \<^verbatim>\<open>for (int i = 0; i < np; i++) { prim = scene->PrimitiveAt(i); if (mesh) ... }\<close>: the
  primitives still to visit, and the index \<open>i\<close> of the first of them.
\<close>

fun create_triaccels ::
  "Machine \<Rightarrow> Primitive list \<Rightarrow> nat
    \<Rightarrow> TriAccelTriangle list \<times> Bound list \<Rightarrow> fault + TriAccelTriangle list \<times> Bound list" where
  "create_triaccels env [] i acc = Inr acc"
| "create_triaccels env (prim # rest) i acc =
     (case mesh prim of
        None \<Rightarrow> create_triaccels env rest (Suc i) acc
      | Some m \<Rightarrow>
          (case faces_loop env prim i m [0..<NumFaces m] acc of
             Inl e \<Rightarrow> Inl e
           | Inr acc' \<Rightarrow> create_triaccels env rest (Suc i) acc'))"

text \<open>
  \<^verbatim>\<open>for (int i = begin; i < end; i++) node->bound = Math::Union(node->bound, bounds_[i]);\<close>
\<close>

fun union_range :: "Bound list \<Rightarrow> nat list \<Rightarrow> Bound \<Rightarrow> fault + Bound" where
  "union_range bounds [] b = Inr b"
| "union_range bounds (i # is) b =
     (case read_at bounds i of
        Inl e \<Rightarrow> Inl e
      | Inr bi \<Rightarrow> union_range bounds is (Union_Bound b bi))"

definition LeafNumNodes :: nat where
  "LeafNumNodes = 10"

text \<open>
  The recursive lambda \<^verbatim>\<open>Build_(begin, end)\<close> (a name cannot end in an underscore
  here, hence \<open>Build_rec\<close>), with \<^verbatim>\<open>nodes_\<close> passed through and the
  captured \<^verbatim>\<open>bounds_\<close> as a parameter. The writes to the node stand in the order of the
  source: the bound, then the leaf fields, or \<^verbatim>\<open>isleaf = false\<close>, \<^verbatim>\<open>child1\<close> after the first
  recursive call and \<^verbatim>\<open>child2\<close> after the second.
\<close>

definition set_node :: "BVHNode list \<Rightarrow> nat \<Rightarrow> (BVHNode \<Rightarrow> BVHNode) \<Rightarrow> BVHNode list" where
  "set_node nodes idx f = nodes[idx := f (nodes ! idx)]"

function Build_rec ::
  "Machine \<Rightarrow> Bound list \<Rightarrow> BVHNode list \<Rightarrow> nat \<Rightarrow> nat \<Rightarrow> fault + BVHNode list \<times> nat" where
  "Build_rec env bounds nodes ibegin iend =
     (let idx = length nodes;
          nodes0 = nodes @ [BVHNode_new (behind_node env idx)]
      in case union_range bounds [ibegin..<iend] (bound (nodes0 ! idx)) of
           Inl e \<Rightarrow> Inl e
         | Inr b \<Rightarrow>
             (let nodes1 = set_node nodes0 idx (\<lambda>n. n\<lparr>bound := b\<rparr>)
              in if iend - ibegin < LeafNumNodes
                 then Inr (set_node nodes1 idx
                             (\<lambda>n. n\<lparr>isleaf := True, slot0 := ibegin, slot1 := iend\<rparr>), idx)
                 else
                   (let mid = ibegin + (iend - ibegin) div 2;
                        nodes2 = set_node nodes1 idx (\<lambda>n. n\<lparr>isleaf := False\<rparr>)
                    in case Build_rec env bounds nodes2 ibegin mid of
                         Inl e \<Rightarrow> Inl e
                       | Inr (nodes3, child1) \<Rightarrow>
                           (case Build_rec env bounds (set_node nodes3 idx (\<lambda>n. n\<lparr>slot0 := child1\<rparr>))
                                   mid iend of
                              Inl e \<Rightarrow> Inl e
                            | Inr (nodes4, child2) \<Rightarrow>
                                Inr (set_node nodes4 idx (\<lambda>n. n\<lparr>slot1 := child2\<rparr>), idx)))))"
  by pat_completeness auto
termination
  by (relation "measure (\<lambda>(env, bounds, nodes, ibegin, iend). iend - ibegin)")
     (auto simp: LeafNumNodes_def)

declare Build_rec.simps [simp del]

text \<open>
  \<^verbatim>\<open>Build(scene)\<close>: the triangles are appended to the member \<^verbatim>\<open>triangles_\<close> as it stands,
  \<^verbatim>\<open>bounds_\<close> is a fresh local vector, \<^verbatim>\<open>nodes_.clear()\<close> precedes
  \<^verbatim>\<open>Build_(0, (int)(triangles_.size()))\<close>, and the only \<^verbatim>\<open>return\<close> is \<^verbatim>\<open>return true\<close>.
\<close>

definition Build :: "Machine \<Rightarrow> Scene \<Rightarrow> Accel_BVH \<Rightarrow> fault + bool \<times> Accel_BVH" where
  "Build env scene this =
     (case create_triaccels env scene 0 (accel_triangles this, []) of
        Inl e \<Rightarrow> Inl e
      | Inr (tris, bounds) \<Rightarrow>
          (case Build_rec env bounds [] 0 (length tris) of
             Inl e \<Rightarrow> Inl e
           | Inr (nodes, idx) \<Rightarrow> Inr (True, \<lparr>accel_triangles = tris, accel_nodes = nodes\<rparr>)))"

section \<open>Intersect (accel\_bvh.cpp)\<close>

text \<open>
  ray.h is not among the sources; \<^verbatim>\<open>Intersect\<close> reads \<^verbatim>\<open>ray.o\<close> and \<^verbatim>\<open>ray.d\<close>.
\<close>

datatype Ray = Ray (Ray_o: Vec3) (Ray_d: Vec3)

text \<open>
  Two functions that \<^verbatim>\<open>Intersect\<close> calls are not among the sources and are parameters of
  the model:
  \<^item> \<^verbatim>\<open>node->bound.Intersect(ray, minT, maxT)\<close>, of type \<open>Bound_Intersect\<close>;
  \<^item> \<^verbatim>\<open>triangles_[i].Intersect(ray, minT, maxT, b[0], b[1], t)\<close>, of type
    \<open>Triangle_Intersect\<close>: a function of what \<^verbatim>\<open>Load\<close> stored, the ray and the window,
    giving \<open>Some (u, v, t)\<close> for \<^verbatim>\<open>true\<close> with the three outputs and \<open>None\<close> for
    \<^verbatim>\<open>false\<close>.
\<close>

type_synonym Bound_Intersect = "Bound \<Rightarrow> Ray \<Rightarrow> Float \<Rightarrow> Float \<Rightarrow> bool"

type_synonym Triangle_Intersect =
  "Vec3 \<times> Vec3 \<times> Vec3 \<Rightarrow> Ray \<Rightarrow> Float \<Rightarrow> Float \<Rightarrow> (Float \<times> Float \<times> Float) option"

text \<open>
  The variables the lambda \<^verbatim>\<open>Intersect_\<close> captures by reference and writes: \<^verbatim>\<open>maxT\<close>, and
  \<^verbatim>\<open>minIndex\<close> with \<^verbatim>\<open>minB\<close>, which are written together and hold nothing before the first
  hit (\<open>None\<close>).
\<close>

record Nearest =
  maxT :: Float
  minIndex_minB :: "(nat \<times> Float \<times> Float) option"

text \<open>
  \<^verbatim>\<open>for (int i = node->leaf.begin; i < node->leaf.end; i++)\<close> with its body, over the list
  of the values of \<open>i\<close>; the flag is the local \<^verbatim>\<open>hit\<close>.
\<close>

fun leaf_loop ::
  "Triangle_Intersect \<Rightarrow> TriAccelTriangle list \<Rightarrow> Ray \<Rightarrow> Float \<Rightarrow> nat list
    \<Rightarrow> bool \<times> Nearest \<Rightarrow> fault + bool \<times> Nearest" where
  "leaf_loop ti tris ray minT [] acc = Inr acc"
| "leaf_loop ti tris ray minT (i # is) acc =
     (case read_at tris i of
        Inl e \<Rightarrow> Inl e
      | Inr tri \<Rightarrow>
          (case ti (loaded tri) ray minT (maxT (snd acc)) of
             None \<Rightarrow> leaf_loop ti tris ray minT is acc
           | Some (u, v, t) \<Rightarrow>
               leaf_loop ti tris ray minT is
                 (True, \<lparr>maxT = t, minIndex_minB = Some (i, u, v)\<rparr>)))"

text \<open>
  The recursive lambda \<^verbatim>\<open>Intersect_(idx)\<close>. Nothing in it bounds the recursion (the child
  indices are whatever \<^verbatim>\<open>nodes_\<close> holds), so the model counts the depth left: \<open>None\<close> when
  the count runs out, \<open>Some\<close> of the result otherwise.
\<close>

fun Intersect_rec ::
  "Bound_Intersect \<Rightarrow> Triangle_Intersect \<Rightarrow> BVHNode list \<Rightarrow> TriAccelTriangle list \<Rightarrow> Ray
    \<Rightarrow> Float \<Rightarrow> nat \<Rightarrow> nat \<Rightarrow> Nearest \<Rightarrow> (fault + bool \<times> Nearest) option" where
  "Intersect_rec bi ti nodes tris ray minT 0 idx st = None"
| "Intersect_rec bi ti nodes tris ray minT (Suc depth) idx st =
     (if length nodes \<le> idx then Some (Inl OutOfRange)
      else
        (let node = nodes ! idx
         in if \<not> bi (bound node) ray minT (maxT st) then Some (Inr (False, st))
            else if isleaf node
            then Some (leaf_loop ti tris ray minT [slot0 node..<slot1 node] (False, st))
            else
              (case Intersect_rec bi ti nodes tris ray minT depth (slot0 node) st of
                 None \<Rightarrow> None
               | Some (Inl e) \<Rightarrow> Some (Inl e)
               | Some (Inr (hit1, st1)) \<Rightarrow>
                   (case Intersect_rec bi ti nodes tris ray minT depth (slot1 node) st1 of
                      None \<Rightarrow> None
                    | Some (Inl e) \<Rightarrow> Some (Inl e)
                    | Some (Inr (hit2, st2)) \<Rightarrow> Some (Inr (hit1 \<or> hit2, st2))))))"

text \<open>
  intersectionutils.h is not among the sources: the hit record is kept as the four
  arguments \<^verbatim>\<open>Intersect\<close> hands to \<^verbatim>\<open>CreateTriangleIntersection\<close>, and the distance
  \<^verbatim>\<open>maxT\<close> at which it found them.
\<close>

record Intersection =
  isect_prim :: Primitive
  isect_p :: Vec3
  isect_b :: "Float \<times> Float"
  isect_face :: nat
  isect_t :: Float

text \<open>
  \<^verbatim>\<open>Intersect(scene, ray, isect, minT, maxT)\<close>: \<open>Inr None\<close> is \<^verbatim>\<open>return false\<close>,
  \<open>Inr (Some isect)\<close> is \<^verbatim>\<open>return true\<close> with \<^verbatim>\<open>isect\<close> written.
\<close>

definition Intersect ::
  "Bound_Intersect \<Rightarrow> Triangle_Intersect \<Rightarrow> Accel_BVH \<Rightarrow> Scene \<Rightarrow> Ray \<Rightarrow> Float \<Rightarrow> Float \<Rightarrow> nat
    \<Rightarrow> (fault + Intersection option) option" where
  "Intersect bi ti this scene ray minT maxT0 depth =
     (case Intersect_rec bi ti (accel_nodes this) (accel_triangles this) ray minT depth 0
             \<lparr>maxT = maxT0, minIndex_minB = None\<rparr> of
        None \<Rightarrow> None
      | Some (Inl e) \<Rightarrow> Some (Inl e)
      | Some (Inr (hit, st)) \<Rightarrow>
          if \<not> hit then Some (Inr None)
          else
            (case minIndex_minB st of
               None \<Rightarrow> Some (Inl OutOfBounds)
             | Some (minIndex, u, v) \<Rightarrow>
                 Some (and_then (read_at (accel_triangles this) minIndex) (\<lambda>tri.
                       and_then (PrimitiveAt scene (primIndex tri)) (\<lambda>prim.
                       Inr (Some \<lparr>isect_prim = prim,
                                  isect_p = add_TVec3 (Ray_o ray) (scale_TVec3 (Ray_d ray) (maxT st)),
                                  isect_b = (u, v),
                                  isect_face = faceIndex tri,
                                  isect_t = maxT st\<rparr>))))))"

section \<open>The layout of the node array\<close>

text \<open>
  Used in the proofs only. \<open>range_bound env idx bounds b e\<close> is the union of
  \<open>bounds[b..e)\<close> from the default bound of node \<open>idx\<close>. \<open>built env bounds off b e blk\<close>
  says that \<open>blk\<close> is the block of nodes that \<open>Build_rec\<close> appends for the range \<open>[b, e)\<close>
  when the array already holds \<open>off\<close> nodes: the node of the range first, then the block
  of its first half, then the block of its second half, the children addressed by their
  absolute indices.
\<close>

definition range_bound :: "Machine \<Rightarrow> nat \<Rightarrow> Bound list \<Rightarrow> nat \<Rightarrow> nat \<Rightarrow> Bound" where
  "range_bound env idx bounds b e =
     foldl Union_Bound (Bound_new (behind_node env idx)) (map ((!) bounds) [b..<e])"

inductive built :: "Machine \<Rightarrow> Bound list \<Rightarrow> nat \<Rightarrow> nat \<Rightarrow> nat \<Rightarrow> BVHNode list \<Rightarrow> bool"
  for env :: Machine and bounds :: "Bound list" where
  leaf:
    "e - b < LeafNumNodes \<Longrightarrow>
     built env bounds off b e
       [\<lparr>isleaf = True, bound = range_bound env off bounds b e, slot0 = b, slot1 = e\<rparr>]"
| internal:
    "\<not> e - b < LeafNumNodes \<Longrightarrow> mid = b + (e - b) div 2 \<Longrightarrow>
     built env bounds (Suc off) b mid blk1 \<Longrightarrow>
     built env bounds (Suc off + length blk1) mid e blk2 \<Longrightarrow>
     built env bounds off b e
       (\<lparr>isleaf = False, bound = range_bound env off bounds b e, slot0 = Suc off,
         slot1 = Suc off + length blk1\<rparr> # blk1 @ blk2)"

section \<open>What Build computes, written out\<close>

text \<open>
  The world-space position of vertex \<open>w\<close> of a mesh under the transform of its primitive,
  the triangle of one face, and the triangles of a whole scene in the order in which
  \<open>create_triaccels\<close> appends them. They describe the result of the loops when no read
  fails; the lemmas below connect them to the loops.
\<close>

definition world_position :: "Primitive \<Rightarrow> TriangleMesh \<Rightarrow> 32 word \<Rightarrow> Vec3" where
  "world_position prim m w =
     Vec3_of_Vec4 (mult_TMat4_TVec4 (transform prim)
       (TVec4 (Positions m ! unat (3 * w)) (Positions m ! unat (3 * w + 1))
          (Positions m ! unat (3 * w + 2)) 1))"

definition face_triangle :: "nat \<Rightarrow> Primitive \<Rightarrow> TriangleMesh \<Rightarrow> nat \<Rightarrow> TriAccelTriangle" where
  "face_triangle i prim m j =
     \<lparr>faceIndex = j, primIndex = i,
      loaded = (world_position prim m (Faces m ! (3 * j)),
                world_position prim m (Faces m ! (3 * j + 1)),
                world_position prim m (Faces m ! (3 * j + 2)))\<rparr>"

definition mesh_triangles :: "nat \<Rightarrow> Primitive \<Rightarrow> TriAccelTriangle list" where
  "mesh_triangles i prim =
     (case mesh prim of
        None \<Rightarrow> []
      | Some m \<Rightarrow> map (face_triangle i prim m) [0..<NumFaces m])"

fun scene_triangles :: "nat \<Rightarrow> Primitive list \<Rightarrow> TriAccelTriangle list" where
  "scene_triangles i [] = []"
| "scene_triangles i (prim # rest) = mesh_triangles i prim @ scene_triangles (Suc i) rest"

text \<open>
  The bounds pushed to \<^verbatim>\<open>bounds_\<close> for a list of triangles, the first of them as entry
  \<open>k\<close>.
\<close>

fun triangle_bounds :: "Machine \<Rightarrow> nat \<Rightarrow> TriAccelTriangle list \<Rightarrow> Bound list" where
  "triangle_bounds env k [] = []"
| "triangle_bounds env k (tri # tris) = triangle_bound env k tri # triangle_bounds env (Suc k) tris"

text \<open>
  The smallest box that holds three points, axis by axis (the spec's
  \<open>union of its three vertex positions\<close>).
\<close>

definition vertices_hull :: "Vec3 \<Rightarrow> Vec3 \<Rightarrow> Vec3 \<Rightarrow> Bound" where
  "vertices_hull p1 p2 p3 =
     \<lparr>bound_min = TVec3 (min (TVec3_x p1) (min (TVec3_x p2) (TVec3_x p3)))
                         (min (TVec3_y p1) (min (TVec3_y p2) (TVec3_y p3)))
                         (min (TVec3_z p1) (min (TVec3_z p2) (TVec3_z p3))),
      bound_max = TVec3 (max (TVec3_x p1) (max (TVec3_x p2) (TVec3_x p3)))
                         (max (TVec3_y p1) (max (TVec3_y p2) (TVec3_y p3)))
                         (max (TVec3_z p1) (max (TVec3_z p2) (TVec3_z p3)))\<rparr>"

text \<open>
  Consistent mesh data: the face array holds three indices for each of the
  \<^verbatim>\<open>NumFaces()\<close> faces, and each of them addresses a vertex of the position array.
\<close>

definition index_in_range :: "TriangleMesh \<Rightarrow> 32 word \<Rightarrow> bool" where
  "index_in_range m w = (3 * unat w + 2 < length (Positions m))"

definition mesh_consistent :: "TriangleMesh \<Rightarrow> bool" where
  "mesh_consistent m =
     (3 * NumFaces m \<le> length (Faces m)
      \<and> list_all (index_in_range m) (take (3 * NumFaces m) (Faces m)))"

definition scene_consistent :: "Scene \<Rightarrow> bool" where
  "scene_consistent scene =
     list_all (\<lambda>prim. case mesh prim of None \<Rightarrow> True | Some m \<Rightarrow> mesh_consistent m) scene"

section \<open>What the statements ask of the two absent tests\<close>

text \<open>
  \<open>bound_test_conservative\<close>: whenever the triangle test reports a hit for a window, the
  box test with the same window succeeds on every box that encloses the bound stored for
  that triangle (entry \<open>k\<close> of \<^verbatim>\<open>bounds_\<close> for triangle \<open>k\<close>). \<open>window_filters\<close>: the
  triangle test with a window \<open>[lo, hi]\<close> is the test with the unbounded window, kept
  when its \<open>t\<close> lies in \<open>[lo, hi]\<close> (the spec: the hit counts \<open>if its parameter t is
  within the current [tMin, tMax] window\<close>).
  \<open>candidate\<close>: triangle \<open>i\<close> is met by the ray at parameter \<open>t\<close>, inside \<open>[lo, hi]\<close>, with
  barycentric coordinates \<open>(u, v)\<close>.
\<close>

definition bound_test_conservative ::
  "Bound_Intersect \<Rightarrow> Triangle_Intersect \<Rightarrow> Machine \<Rightarrow> TriAccelTriangle list \<Rightarrow> Ray \<Rightarrow> bool" where
  "bound_test_conservative bi ti env tris ray =
     (\<forall>k<length tris. \<forall>B lo hi.
        encloses B (triangle_bound env k (tris ! k)) \<and> ti (loaded (tris ! k)) ray lo hi \<noteq> None
          \<longrightarrow> bi B ray lo hi)"

definition window_filters :: "Triangle_Intersect \<Rightarrow> TriAccelTriangle list \<Rightarrow> Ray \<Rightarrow> bool" where
  "window_filters ti tris ray =
     (\<forall>tri\<in>set tris. \<forall>lo hi.
        ti (loaded tri) ray lo hi =
          (case ti (loaded tri) ray NInf PInf of
             None \<Rightarrow> None
           | Some (u, v, t) \<Rightarrow> if lo \<le> t \<and> t \<le> hi then Some (u, v, t) else None))"

definition candidate ::
  "Triangle_Intersect \<Rightarrow> TriAccelTriangle list \<Rightarrow> Ray \<Rightarrow> Float \<Rightarrow> Float \<Rightarrow> nat
    \<Rightarrow> Float \<times> Float \<times> Float \<Rightarrow> bool" where
  "candidate ti tris ray lo hi i uvt =
     (i < length tris \<and> ti (loaded (tris ! i)) ray NInf PInf = Some uvt
      \<and> lo \<le> snd (snd uvt) \<and> snd (snd uvt) \<le> hi)"

text \<open>
  \<open>nearest_result\<close>: what a search over the triangles with indices in \<open>S\<close> has to
  return when it starts from \<open>start\<close> with the window \<open>[lo, hi]\<close>. If some triangle of \<open>S\<close>
  is met inside the window, the flag is set, the recorded triangle is one of them, met at
  the recorded distance with the recorded coordinates, and no triangle of \<open>S\<close> is met
  inside the window at a smaller distance; otherwise nothing has changed.
\<close>

definition nearest_result ::
  "Triangle_Intersect \<Rightarrow> TriAccelTriangle list \<Rightarrow> Ray \<Rightarrow> Float \<Rightarrow> Float \<Rightarrow> nat set
    \<Rightarrow> bool \<times> Nearest \<Rightarrow> bool \<times> Nearest \<Rightarrow> bool" where
  "nearest_result ti tris ray lo hi S start res =
     (if \<exists>i\<in>S. \<exists>uvt. candidate ti tris ray lo hi i uvt
      then fst res
           \<and> (\<exists>i\<in>S. \<exists>u v. candidate ti tris ray lo hi i (u, v, maxT (snd res))
                          \<and> minIndex_minB (snd res) = Some (i, u, v))
           \<and> (\<forall>i\<in>S. \<forall>uvt. candidate ti tris ray lo hi i uvt \<longrightarrow> maxT (snd res) \<le> snd (snd uvt))
      else res = start)"

text \<open>
  Readable mesh data: every read that \<open>create_triaccel\<close> makes for a face lands inside
  its array, with the index arithmetic as the code does it (so after the wrap at \<open>2^32\<close>).
\<close>

definition position_readable :: "Float list \<Rightarrow> 32 word \<Rightarrow> bool" where
  "position_readable ps w =
     (unat (3 * w) < length ps \<and> unat (3 * w + 1) < length ps \<and> unat (3 * w + 2) < length ps)"

definition face_readable :: "TriangleMesh \<Rightarrow> nat \<Rightarrow> bool" where
  "face_readable m j =
     (3 * j + 2 < length (Faces m)
      \<and> position_readable (Positions m) (Faces m ! (3 * j))
      \<and> position_readable (Positions m) (Faces m ! (3 * j + 1))
      \<and> position_readable (Positions m) (Faces m ! (3 * j + 2)))"

definition scene_readable :: "Scene \<Rightarrow> bool" where
  "scene_readable scene =
     list_all (\<lambda>prim. case mesh prim of
                        None \<Rightarrow> True
                      | Some m \<Rightarrow> list_all (face_readable m) [0..<NumFaces m]) scene"



section \<open>Scenes of the worked examples\<close>

text \<open>
  One primitive, one mesh of three vertices \<open>(0,0,0)\<close>, \<open>(1,0,0)\<close>, \<open>(0,1,0)\<close> under the
  identity transform. \<open>one_triangle_mesh\<close> has the face \<open>(0, 1, 2)\<close>. \<open>wrapped_mesh\<close> has
  the face \<open>(0, 1, 1431655766)\<close>: its third index is far outside the three vertices, and
  \<open>3 * 1431655766 = 2^32 + 2\<close>. \<open>short_mesh\<close> has the face \<open>(0, 1, 3)\<close>, whose third
  index is outside as well, without a wrap.
\<close>

definition example_eps :: Float where
  "example_eps = Fin (1 / 1024)"

text \<open>
  The surroundings of the worked examples: \<open>2^-10\<close> for \<^verbatim>\<open>Math::Eps()\<close>, exact subtraction
  and addition, and memory that holds \<open>0\<close> behind every list. Every number of the worked
  examples is a binary32 number, and so is every sum, difference and product taken of
  them: on these inputs the exact operations are those of the machine.
\<close>

definition zero_filled :: Stale where
  "zero_filled = \<lparr>behind_min = (\<lambda>k. Fin 0), behind_max = (\<lambda>k. Fin 0)\<rparr>"

definition example_env :: Machine where
  "example_env =
     \<lparr>Math_Eps = example_eps, sub_assign = (-), add_assign = (+),
      behind_bound = (\<lambda>k. zero_filled), behind_node = (\<lambda>idx. zero_filled)\<rparr>"

definition example_positions :: "Float list" where
  "example_positions = [Fin 0, Fin 0, Fin 0,  Fin 1, Fin 0, Fin 0,  Fin 0, Fin 1, Fin 0]"

definition one_triangle_mesh :: TriangleMesh where
  "one_triangle_mesh = \<lparr>Positions = example_positions, Faces = [0, 1, 2], NumFaces = 1\<rparr>"

definition wrapped_mesh :: TriangleMesh where
  "wrapped_mesh = \<lparr>Positions = example_positions, Faces = [0, 1, 1431655766], NumFaces = 1\<rparr>"

definition short_mesh :: TriangleMesh where
  "short_mesh = \<lparr>Positions = example_positions, Faces = [0, 1, 3], NumFaces = 1\<rparr>"

definition one_triangle_scene :: Scene where
  "one_triangle_scene = [\<lparr>mesh = Some one_triangle_mesh, transform = TMat4_Identity\<rparr>]"

definition wrapped_scene :: Scene where
  "wrapped_scene = [\<lparr>mesh = Some wrapped_mesh, transform = TMat4_Identity\<rparr>]"

definition short_scene :: Scene where
  "short_scene = [\<lparr>mesh = Some short_mesh, transform = TMat4_Identity\<rparr>]"

text \<open>The accelerator after one \<open>Build\<close> of \<open>one_triangle_scene\<close>.\<close>

definition one_triangle :: TriAccelTriangle where
  "one_triangle =
     \<lparr>faceIndex = 0, primIndex = 0,
      loaded = (TVec3 (Fin 0) (Fin 0) (Fin 0), TVec3 (Fin 1) (Fin 0) (Fin 0),
                TVec3 (Fin 0) (Fin 1) (Fin 0))\<rparr>"

definition one_triangle_bound :: Bound where
  "one_triangle_bound =
     \<lparr>bound_min = TVec3 (Fin (- 1 / 1024)) (Fin (- 1 / 1024)) (Fin (- 1 / 1024)),
      bound_max = TVec3 (Fin (1025 / 1024)) (Fin (1025 / 1024)) (Fin (1 / 1024))\<rparr>"

definition built_once :: Accel_BVH where
  "built_once =
     \<lparr>accel_triangles = [one_triangle],
      accel_nodes = [\<lparr>isleaf = True, bound = one_triangle_bound, slot0 = 0, slot1 = 1\<rparr>]\<rparr>"

text \<open>
  One triangle away from the origin: the vertices \<open>(0,0,0)\<close>, \<open>(1,0,0)\<close>, \<open>(0,1,1)\<close> under
  the translation by \<open>(100, 100, 100)\<close>, with the triangle and the bound that \<open>Build\<close>
  stores for it in the surroundings \<open>example_env\<close>.
\<close>

definition translation_100 :: Mat4 where
  "translation_100 =
     TMat4_init [Fin 1, Fin 0, Fin 0, Fin 0,  Fin 0, Fin 1, Fin 0, Fin 0,
                 Fin 0, Fin 0, Fin 1, Fin 0,  Fin 100, Fin 100, Fin 100, Fin 1]"

definition raised_mesh :: TriangleMesh where
  "raised_mesh =
     \<lparr>Positions = [Fin 0, Fin 0, Fin 0,  Fin 1, Fin 0, Fin 0,  Fin 0, Fin 1, Fin 1],
      Faces = [0, 1, 2], NumFaces = 1\<rparr>"

definition raised_scene :: Scene where
  "raised_scene = [\<lparr>mesh = Some raised_mesh, transform = translation_100\<rparr>]"

definition raised_triangle :: TriAccelTriangle where
  "raised_triangle =
     \<lparr>faceIndex = 0, primIndex = 0,
      loaded = (TVec3 (Fin 100) (Fin 100) (Fin 100), TVec3 (Fin 101) (Fin 100) (Fin 100),
                TVec3 (Fin 100) (Fin 101) (Fin 101))\<rparr>"

definition raised_bound :: Bound where
  "raised_bound =
     \<lparr>bound_min = TVec3 (Fin (102399 / 1024)) (Fin (- 1 / 1024)) (Fin (- 1 / 1024)),
      bound_max = TVec3 (Fin (103425 / 1024)) (Fin (103425 / 1024)) (Fin (103425 / 1024))\<rparr>"





text \<open>The primitives that have a mesh, in their order.\<close>

definition with_mesh :: "Scene \<Rightarrow> Scene" where
  "with_mesh scene = filter (\<lambda>prim. mesh prim \<noteq> None) scene"

section \<open>A worked example with ten triangles and a ray\<close>

text \<open>
  Ten triangles in the planes \<open>x = c\<close>, for the ten coordinates \<open>c\<close> of a list, each with
  the vertices \<open>(c, 0, 0)\<close>, \<open>(c, 1, 0)\<close> and \<open>(c, 0, 1)\<close>. With ten triangles \<open>Build_rec\<close>
  splits once: the root is an internal node over two leaves of five triangles. The list
  \<open>far_first\<close> inserts the farthest triangle first, \<open>near_first\<close> the nearest.
\<close>

definition plane_positions :: "real \<Rightarrow> Float list" where
  "plane_positions c = [Fin c, Fin 0, Fin 0,  Fin c, Fin 1, Fin 0,  Fin c, Fin 0, Fin 1]"

definition planes_mesh :: "real list \<Rightarrow> TriangleMesh" where
  "planes_mesh cs =
     \<lparr>Positions = concat (map plane_positions cs),
      Faces = [0, 1, 2,  3, 4, 5,  6, 7, 8,  9, 10, 11,  12, 13, 14,
               15, 16, 17,  18, 19, 20,  21, 22, 23,  24, 25, 26,  27, 28, 29],
      NumFaces = 10\<rparr>"

definition planes_prim :: "real list \<Rightarrow> Primitive" where
  "planes_prim cs = \<lparr>mesh = Some (planes_mesh cs), transform = TMat4_Identity\<rparr>"

definition far_first :: "real list" where
  "far_first = [10, 9, 8, 7, 6, 5, 4, 3, 2, 1]"

definition near_first :: "real list" where
  "near_first = [1, 2, 3, 4, 5, 6, 7, 8, 9, 10]"

definition far_first_scene :: Scene where
  "far_first_scene = [planes_prim far_first]"

definition near_first_scene :: Scene where
  "near_first_scene = [planes_prim near_first]"

text \<open>The scene \<open>far_first_scene\<close> behind a primitive without a mesh.\<close>

definition gap_scene :: Scene where
  "gap_scene = [\<lparr>mesh = None, transform = TMat4_Identity\<rparr>, planes_prim far_first]"

text \<open>
  What \<open>Build\<close> stores for these scenes: triangle \<open>j\<close> of primitive \<open>i\<close> in the plane
  \<open>x = c\<close>, the box around the planes from \<open>x = a\<close> to \<open>x = b\<close> expanded by \<open>example_eps\<close>, and
  the three nodes.
\<close>

definition plane_triangle :: "nat \<Rightarrow> nat \<Rightarrow> real \<Rightarrow> TriAccelTriangle" where
  "plane_triangle i j c =
     \<lparr>faceIndex = j, primIndex = i,
      loaded = (TVec3 (Fin c) (Fin 0) (Fin 0), TVec3 (Fin c) (Fin 1) (Fin 0),
                TVec3 (Fin c) (Fin 0) (Fin 1))\<rparr>"

definition plane_triangles :: "nat \<Rightarrow> real list \<Rightarrow> TriAccelTriangle list" where
  "plane_triangles i cs = map (\<lambda>(j, c). plane_triangle i j c) (zip [0..<length cs] cs)"

definition plane_box :: "real \<Rightarrow> real \<Rightarrow> Bound" where
  "plane_box a b =
     \<lparr>bound_min = TVec3 (Fin (a - 1 / 1024)) (Fin (- 1 / 1024)) (Fin (- 1 / 1024)),
      bound_max = TVec3 (Fin (b + 1 / 1024)) (Fin (1025 / 1024)) (Fin (1025 / 1024))\<rparr>"

definition far_first_nodes :: "BVHNode list" where
  "far_first_nodes =
     [\<lparr>isleaf = False, bound = plane_box 1 10, slot0 = 1, slot1 = 2\<rparr>,
      \<lparr>isleaf = True, bound = plane_box 6 10, slot0 = 0, slot1 = 5\<rparr>,
      \<lparr>isleaf = True, bound = plane_box 1 5, slot0 = 5, slot1 = 10\<rparr>]"

definition near_first_nodes :: "BVHNode list" where
  "near_first_nodes =
     [\<lparr>isleaf = False, bound = plane_box 1 10, slot0 = 1, slot1 = 2\<rparr>,
      \<lparr>isleaf = True, bound = plane_box 1 5, slot0 = 0, slot1 = 5\<rparr>,
      \<lparr>isleaf = True, bound = plane_box 6 10, slot0 = 5, slot1 = 10\<rparr>]"

definition far_first_accel :: "nat \<Rightarrow> Accel_BVH" where
  "far_first_accel i =
     \<lparr>accel_triangles = plane_triangles i far_first, accel_nodes = far_first_nodes\<rparr>"

definition near_first_accel :: Accel_BVH where
  "near_first_accel =
     \<lparr>accel_triangles = plane_triangles 0 near_first, accel_nodes = near_first_nodes\<rparr>"

text \<open>
  The ray from \<open>(0, 1/4, 1/4)\<close> in direction \<open>(1, 0, 0)\<close> meets the triangle in the plane
  \<open>x = c\<close> at \<open>t = c\<close>, with barycentric coordinates \<open>(1/4, 1/4)\<close>.
\<close>

definition x_ray :: Ray where
  "x_ray = Ray (TVec3 (Fin 0) (Fin (1 / 4)) (Fin (1 / 4))) (TVec3 (Fin 1) (Fin 0) (Fin 0))"

text \<open>
  Stand-ins for the two absent tests, right for \<open>x_ray\<close> and these triangles: a triangle
  in a plane \<open>x = c\<close> is met at \<open>t = c\<close>, and a box is met when its extent in \<open>x\<close> overlaps
  the window.
\<close>

definition x_axis_triangle_test :: Triangle_Intersect where
  "x_axis_triangle_test g ray lo hi =
     (case g of (p1, p2, p3) \<Rightarrow>
        if lo \<le> TVec3_x p1 \<and> TVec3_x p1 \<le> hi
        then Some (Fin (1 / 4), Fin (1 / 4), TVec3_x p1)
        else None)"

definition x_axis_bound_test :: Bound_Intersect where
  "x_axis_bound_test B ray lo hi =
     (TVec3_x (bound_min B) \<le> hi \<and> lo \<le> TVec3_x (bound_max B))"

text \<open>The hit in the plane \<open>x = 1\<close>, on face \<open>j\<close> of the primitive \<open>prim\<close>.\<close>

definition plane_isect :: "Primitive \<Rightarrow> nat \<Rightarrow> Intersection" where
  "plane_isect prim j =
     \<lparr>isect_prim = prim,
      isect_p = TVec3 (Fin 1) (Fin (1 / 4)) (Fin (1 / 4)),
      isect_b = (Fin (1 / 4), Fin (1 / 4)),
      isect_face = j,
      isect_t = Fin 1\<rparr>"

section \<open>The order on the scalars and on boxes\<close>

lemma Float_le_PInf [simp]: "a \<le> PInf"
  by (cases a) simp_all

lemma Float_NInf_le [simp]: "NInf \<le> a"
  by simp

lemma Float_min_PInf [simp]: "min PInf a = a" "min a PInf = a"
  by (simp_all add: min_absorb1 min_absorb2)

lemma Float_max_NInf [simp]: "max NInf a = a" "max a NInf = a"
  by (simp_all add: max_absorb1 max_absorb2)

lemma Math_Min_Inf [simp]:
  "Math_Min (Vec3_of_Float PInf) p = p" "Math_Min p (Vec3_of_Float PInf) = p"
  by (simp_all add: Math_Min_def Vec3_of_Float_def)

lemma Math_Max_NInf [simp]:
  "Math_Max (Vec3_of_Float NInf) p = p" "Math_Max p (Vec3_of_Float NInf) = p"
  by (simp_all add: Math_Max_def Vec3_of_Float_def)

lemma Math_Min_commute: "Math_Min a b = Math_Min b a"
  by (simp add: Math_Min_def min.commute)

lemma Math_Max_commute: "Math_Max a b = Math_Max b a"
  by (simp add: Math_Max_def max.commute)

lemma Math_Min_assoc: "Math_Min (Math_Min a b) c = Math_Min a (Math_Min b c)"
  by (simp add: Math_Min_def min.assoc)

lemma Math_Max_assoc: "Math_Max (Math_Max a b) c = Math_Max a (Math_Max b c)"
  by (simp add: Math_Max_def max.assoc)

lemma Vec3_le_refl [simp]: "Vec3_le a a"
  by (simp add: Vec3_le_def)

lemma Vec3_le_trans: "Vec3_le a b \<Longrightarrow> Vec3_le b c \<Longrightarrow> Vec3_le a c"
  by (auto simp: Vec3_le_def)

lemma Vec3_le_antisym: "Vec3_le a b \<Longrightarrow> Vec3_le b a \<Longrightarrow> a = b"
  by (cases a; cases b) (auto simp: Vec3_le_def)

lemma Vec3_le_Min_iff: "Vec3_le c (Math_Min a b) = (Vec3_le c a \<and> Vec3_le c b)"
  by (auto simp: Vec3_le_def Math_Min_def)

lemma Vec3_le_Max_iff: "Vec3_le (Math_Max a b) c = (Vec3_le a c \<and> Vec3_le b c)"
  by (auto simp: Vec3_le_def Math_Max_def)

lemma Vec3_Min_le [simp]: "Vec3_le (Math_Min a b) a" "Vec3_le (Math_Min a b) b"
  by (simp_all add: Vec3_le_def Math_Min_def)

lemma Vec3_le_Max [simp]: "Vec3_le a (Math_Max a b)" "Vec3_le b (Math_Max a b)"
  by (simp_all add: Vec3_le_def Math_Max_def)

lemma encloses_refl [simp]: "encloses a a"
  by (simp add: encloses_def)

lemma encloses_trans: "encloses a b \<Longrightarrow> encloses b c \<Longrightarrow> encloses a c"
  by (auto simp: encloses_def intro: Vec3_le_trans)

lemma encloses_antisym: "encloses a b \<Longrightarrow> encloses b a \<Longrightarrow> a = (b::Bound)"
  by (cases a; cases b) (auto simp: encloses_def intro: Vec3_le_antisym)

lemma encloses_spec_empty_box [simp]: "encloses c spec_empty_box"
  by (simp add: encloses_def spec_empty_box_def Math_Inf_def Vec3_le_def Vec3_of_Float_def)

section \<open>Union of bounds\<close>

lemma Union_Bound_commute: "Union_Bound a b = Union_Bound b a"
  by (simp add: Union_Bound_def Math_Min_commute Math_Max_commute)

lemma Union_Bound_assoc: "Union_Bound (Union_Bound a b) c = Union_Bound a (Union_Bound b c)"
  by (simp add: Union_Bound_def Math_Min_assoc Math_Max_assoc)

lemma Union_Point_box: "Union_Point a p = Union_Bound a (point_box p)"
  by (simp add: Union_Point_def Union_Bound_def point_box_def)

lemma encloses_Union_iff: "encloses c (Union_Bound a b) = (encloses c a \<and> encloses c b)"
  by (auto simp: encloses_def Union_Bound_def Vec3_le_Min_iff Vec3_le_Max_iff)

lemma encloses_Union [simp]: "encloses (Union_Bound a b) a" "encloses (Union_Bound a b) b"
  by (simp_all add: encloses_def Union_Bound_def)

lemma encloses_foldl_iff:
  "encloses c (foldl Union_Bound a bs) = (encloses c a \<and> (\<forall>b\<in>set bs. encloses c b))"
  by (induction bs arbitrary: a) (auto simp: encloses_Union_iff)

text \<open>A fold of \<open>Union\<close> encloses every box of the list, whatever box it starts from.\<close>

lemma foldl_Union_encloses: "b \<in> set bs \<Longrightarrow> encloses (foldl Union_Bound a bs) b"
  using encloses_foldl_iff [of "foldl Union_Bound a bs" a bs] by simp

lemma foldl_Union_Point:
  "foldl Union_Point a ps = foldl Union_Bound a (map point_box ps)"
  by (induction ps arbitrary: a) (simp_all add: Union_Point_box)

section \<open>The default bound\<close>

text \<open>
  The box of the spec is a neutral element of \<open>Union\<close>, and a fold that starts from it
  gives the smallest box that encloses the boxes of the list.
\<close>

lemma Union_spec_empty_box [simp]:
  "Union_Bound spec_empty_box b = b" "Union_Bound b spec_empty_box = b"
  by (simp_all add: Union_Bound_def spec_empty_box_def Math_Inf_def)

lemma foldl_Union_least:
  "\<forall>b\<in>set bs. encloses c b \<Longrightarrow> encloses c (foldl Union_Bound spec_empty_box bs)"
  by (simp add: encloses_foldl_iff)

text \<open>
  The default bound of the code: \<open>x\<close> as the spec has it, \<open>y\<close> and \<open>z\<close> from behind the
  lists. It is a neutral element of \<open>Union\<close> only when the memory behind the two lists
  happens to hold the infinities itself.
\<close>

lemma Bound_new_lanes:
  "Bound_new s =
     \<lparr>bound_min = TVec3 PInf (behind_min s 0) (behind_min s (Suc 0)),
      bound_max = TVec3 NInf (behind_max s 0) (behind_max s (Suc 0))\<rparr>"
  by (simp add: Bound_new_def TVec3_init_def read_begin_def Math_Inf_def)

lemma Bound_new_spec_iff:
  "(Bound_new s = spec_empty_box) =
     (behind_min s 0 = PInf \<and> behind_min s (Suc 0) = PInf
      \<and> behind_max s 0 = NInf \<and> behind_max s (Suc 0) = NInf)"
  by (auto simp: Bound_new_lanes spec_empty_box_def Vec3_of_Float_def Math_Inf_def)

lemma Bound_new_neutral_iff:
  "(\<forall>b. Union_Bound (Bound_new s) b = b) = (Bound_new s = spec_empty_box)"
proof
  assume "\<forall>b. Union_Bound (Bound_new s) b = b"
  then have "Union_Bound (Bound_new s) spec_empty_box = spec_empty_box"
    by (rule spec)
  then show "Bound_new s = spec_empty_box"
    by simp
next
  assume "Bound_new s = spec_empty_box"
  then show "\<forall>b. Union_Bound (Bound_new s) b = b"
    by simp
qed

text \<open>
  Claim C8 says that the default-constructed bound is \<open>min = +infinity, max = -infinity\<close>
  and the neutral element of \<open>Union\<close>, so that a fold from it gives the minimal enclosing
  box. On the code it is not: \<^verbatim>\<open>Vec3 min{ Math::Inf() }\<close> sets \<open>x\<close> alone. With \<open>0\<close> in the
  memory behind the lists, the default bound has the corners \<open>(+infinity, 0, 0)\<close> and
  \<open>(-infinity, 0, 0)\<close>; its \<open>Union\<close> with the point \<open>(100, 100, 100)\<close>, which is the fold over
  that one point, has the lower corner \<open>(100, 0, 0)\<close> and is not the box of the point. In
  general the default bound is neutral exactly when the four places read behind the
  lists hold \<open>+infinity\<close>, \<open>+infinity\<close>, \<open>-infinity\<close>, \<open>-infinity\<close>. (That \<open>Union\<close> is
  commutative and associative, and that a point counts as its degenerate box, holds:
  \<open>Union_Bound_commute\<close>, \<open>Union_Bound_assoc\<close>, \<open>Union_Point_box\<close>.)
\<close>

theorem Bound_new_not_neutral:
  "Bound_new zero_filled
     = \<lparr>bound_min = TVec3 PInf (Fin 0) (Fin 0), bound_max = TVec3 NInf (Fin 0) (Fin 0)\<rparr>
   \<and> Bound_new zero_filled \<noteq> spec_empty_box
   \<and> foldl Union_Point (Bound_new zero_filled) [TVec3 (Fin 100) (Fin 100) (Fin 100)]
       = \<lparr>bound_min = TVec3 (Fin 100) (Fin 0) (Fin 0),
          bound_max = TVec3 (Fin 100) (Fin 100) (Fin 100)\<rparr>
   \<and> Union_Bound (Bound_new zero_filled) (point_box (TVec3 (Fin 100) (Fin 100) (Fin 100)))
       \<noteq> point_box (TVec3 (Fin 100) (Fin 100) (Fin 100))
   \<and> (\<forall>b. Union_Bound (Bound_new s) b = b)
       = (behind_min s 0 = PInf \<and> behind_min s (Suc 0) = PInf
          \<and> behind_max s 0 = NInf \<and> behind_max s (Suc 0) = NInf)"
proof -
  have v: "Bound_new zero_filled
     = \<lparr>bound_min = TVec3 PInf (Fin 0) (Fin 0), bound_max = TVec3 NInf (Fin 0) (Fin 0)\<rparr>"
    by (simp add: Bound_new_lanes zero_filled_def)
  have n: "Bound_new zero_filled \<noteq> spec_empty_box"
    by (simp add: Bound_new_spec_iff zero_filled_def)
  have f: "foldl Union_Point (Bound_new zero_filled) [TVec3 (Fin 100) (Fin 100) (Fin 100)]
       = \<lparr>bound_min = TVec3 (Fin 100) (Fin 0) (Fin 0),
          bound_max = TVec3 (Fin 100) (Fin 100) (Fin 100)\<rparr>"
    by (simp add: v Union_Point_def Math_Min_def Math_Max_def)
  have u: "Union_Bound (Bound_new zero_filled) (point_box (TVec3 (Fin 100) (Fin 100) (Fin 100)))
       \<noteq> point_box (TVec3 (Fin 100) (Fin 100) (Fin 100))"
    by (simp add: v Union_Bound_def point_box_def Math_Min_def Math_Max_def)
  have g: "(\<forall>b. Union_Bound (Bound_new s) b = b)
       = (behind_min s 0 = PInf \<and> behind_min s (Suc 0) = PInf
          \<and> behind_max s 0 = NInf \<and> behind_max s (Suc 0) = NInf)"
    by (simp only: Bound_new_neutral_iff Bound_new_spec_iff)
  show ?thesis
    by (intro conjI) (rule v, rule n, rule f, rule u, rule g)
qed

section \<open>The identity matrix\<close>

text \<open>
  What \<^verbatim>\<open>TMat3::Identity()\<close> does to a vector: the third column of the matrix is
  \<open>(0, 1, 0)\<close>, so \<open>z\<close> is added to the second component and the third is lost.
\<close>

lemma TMat3_Identity_times:
  "mult_TMat3_TVec3 TMat3_Identity (TVec3 a b c) = TVec3 a (b + c) (0::'a::semiring_1)"
  by (simp add: mult_TMat3_TVec3_def TMat3_Identity_def TMat3_init_def)

lemma TMat4_Identity_times:
  "mult_TMat4_TVec4 TMat4_Identity (TVec4 a b c d) = TVec4 a b c (d::'a::semiring_1)"
  by (simp add: mult_TMat4_TVec4_def TMat4_Identity_def TMat4_init_def)

text \<open>
  Claim C10 says that \<^verbatim>\<open>TMat3::Identity()\<close> is the multiplicative identity. On the code it
  is not: \<open>Identity() * (0, 0, 1)\<close> is \<open>(0, 1, 0)\<close>. (\<^verbatim>\<open>TMat4::Identity()\<close>, written the
  same way, has the right last column.)
\<close>

theorem TMat3_Identity_third_axis:
  "mult_TMat3_TVec3 TMat3_Identity (TVec3 0 0 1 :: Vec3) = TVec3 0 1 0
   \<and> mult_TMat3_TVec3 TMat3_Identity (TVec3 0 0 1 :: Vec3) \<noteq> TVec3 0 0 1"
  by (simp add: mult_TMat3_TVec3_def TMat3_Identity_def TMat3_init_def zero_Float_def
      one_Float_def)

section \<open>Reads, faults and the loops of Build\<close>

lemma and_then_simps [simp]:
  "and_then (Inl e) f = Inl e" "and_then (Inr v) f = f v"
  by (simp_all add: and_then_def)

lemma and_then_Inr_iff:
  "(and_then r f = Inr y) = (\<exists>v. r = Inr v \<and> f v = Inr y)"
  by (cases r) simp_all

lemma read_at_Inr_iff [simp]: "(read_at xs k = Inr v) = (k < length xs \<and> xs ! k = v)"
  by (auto simp: read_at_def)

lemma read_at_in [simp]: "k < length xs \<Longrightarrow> read_at xs k = Inr (xs ! k)"
  by (simp add: read_at_def)

lemma read_at_out [simp]: "\<not> k < length xs \<Longrightarrow> read_at xs k = Inl OutOfBounds"
  by (simp add: read_at_def)

lemma set_node_last [simp]: "set_node (nodes @ [n]) (length nodes) f = nodes @ [f n]"
  by (simp add: set_node_def)

lemma set_node_mid [simp]:
  "set_node (nodes @ n # rest) (length nodes) f = nodes @ f n # rest"
  by (simp add: set_node_def)

lemma union_range_in:
  "\<forall>i\<in>set is. i < length bounds \<Longrightarrow>
   union_range bounds is b = Inr (foldl Union_Bound b (map ((!) bounds) is))"
  by (induction "is" arbitrary: b) simp_all

lemma union_range_out:
  "\<exists>i\<in>set is. \<not> i < length bounds \<Longrightarrow> union_range bounds is b = Inl OutOfBounds"
proof (induction "is" arbitrary: b)
  case Nil
  then show ?case by simp
next
  case (Cons i "is")
  show ?case
  proof (cases "i < length bounds")
    case True
    with Cons show ?thesis by simp
  next
    case False
    then show ?thesis by simp
  qed
qed

lemma union_range_upt:
  "e \<le> length bounds \<Longrightarrow>
   union_range bounds [b..<e] (Bound_new (behind_node env idx)) = Inr (range_bound env idx bounds b e)"
  by (simp add: union_range_in range_bound_def)

lemma Build_rec_built:
  "e \<le> length bounds \<Longrightarrow>
   \<exists>blk. Build_rec env bounds nodes b e = Inr (nodes @ blk, length nodes)
         \<and> built env bounds (length nodes) b e blk"
proof (induction "e - b" arbitrary: nodes b e rule: less_induct)
  case less
  have ur: "union_range bounds [b..<e] (Bound_new (behind_node env (length nodes))) = Inr (range_bound env (length nodes) bounds b e)"
    using less.prems by (rule union_range_upt)
  show ?case
  proof (cases "e - b < LeafNumNodes")
    case True
    have "Build_rec env bounds nodes b e
            = Inr (nodes @ [\<lparr>isleaf = True, bound = range_bound env (length nodes) bounds b e, slot0 = b, slot1 = e\<rparr>],
                   length nodes)"
      using True ur by (subst Build_rec.simps) (simp add: BVHNode_new_def Let_def)
    with built.leaf [OF True] show ?thesis by blast
  next
    case False
    define mid where "mid = b + (e - b) div 2"
    have big: "10 \<le> e - b" using False by (simp add: LeafNumNodes_def)
    have m1: "mid - b < e - b" and m2: "e - mid < e - b" and m3: "mid \<le> length bounds"
      using big less.prems by (simp_all add: mid_def)
    define n0 where "n0 = \<lparr>isleaf = False, bound = range_bound env (length nodes) bounds b e, slot0 = 0, slot1 = 0\<rparr>"
    obtain blk1 where
      b1: "Build_rec env bounds (nodes @ [n0]) b mid = Inr ((nodes @ [n0]) @ blk1, length (nodes @ [n0]))"
      and t1: "built env bounds (length (nodes @ [n0])) b mid blk1"
      using less.hyps [OF m1 m3, of "nodes @ [n0]"] by blast
    define n1 where "n1 = n0\<lparr>slot0 := Suc (length nodes)\<rparr>"
    obtain blk2 where
      b2: "Build_rec env bounds (nodes @ n1 # blk1) mid e
             = Inr ((nodes @ n1 # blk1) @ blk2, length (nodes @ n1 # blk1))"
      and t2: "built env bounds (length (nodes @ n1 # blk1)) mid e blk2"
      using less.hyps [OF m2 less.prems, of "nodes @ n1 # blk1"] by blast
    define n2 where "n2 = n1\<lparr>slot1 := Suc (length nodes) + length blk1\<rparr>"
    have n0': "n0\<lparr>isleaf := False\<rparr> = n0"
      by (simp add: n0_def)
    have "Build_rec env bounds nodes b e = Inr (nodes @ n2 # blk1 @ blk2, length nodes)"
      using False ur b1 b2
      by (subst Build_rec.simps)
         (simp add: BVHNode_new_def mid_def [symmetric] n0_def [symmetric] n0'
            n1_def [symmetric] n2_def Let_def)
    moreover have "built env bounds (length nodes) b e (n2 # blk1 @ blk2)"
      using built.internal [OF False mid_def, of env bounds "length nodes" blk1 blk2] t1 t2
      by (simp add: n2_def n1_def n0_def)
    ultimately show ?thesis by auto
  qed
qed

lemma unat_3_times: "unat (3 * (w::32 word)) \<le> 3 * unat w"
  by (simp add: unat_word_ariths)

lemma unat_3_times_plus: "unat (3 * (w::32 word) + k) \<le> 3 * unat w + unat k"
proof -
  have "unat (3 * w + k) \<le> unat (3 * w) + unat k"
    by (simp add: unat_word_ariths)
  with unat_3_times [of w] show ?thesis by linarith
qed

text \<open>An index inside the position array is readable: the wrap can only lower an index.\<close>

lemma index_in_range_readable:
  assumes "index_in_range m w"
  shows "position_readable (Positions m) w"
proof -
  have r: "3 * unat w + 2 < length (Positions m)"
    using assms by (simp add: index_in_range_def)
  have "unat (3 * w) < length (Positions m)"
    using unat_3_times [of w] r by linarith
  moreover have "unat (3 * w + 1) < length (Positions m)"
    using unat_3_times_plus [of w 1] r by simp
  moreover have "unat (3 * w + 2) < length (Positions m)"
    using unat_3_times_plus [of w 2] r by simp
  ultimately show ?thesis
    by (simp add: position_readable_def)
qed

lemma position_at_eq:
  "position_at ps w =
     (if position_readable ps w
      then Inr (TVec4 (ps ! unat (3 * w)) (ps ! unat (3 * w + 1)) (ps ! unat (3 * w + 2)) 1)
      else Inl OutOfBounds)"
  by (simp add: position_at_def position_readable_def read_at_def)

lemma length_triangle_bounds [simp]: "length (triangle_bounds env k tris) = length tris"
  by (induction tris arbitrary: k) simp_all

lemma triangle_bounds_append:
  "triangle_bounds env k (xs @ ys)
     = triangle_bounds env k xs @ triangle_bounds env (k + length xs) ys"
  by (induction xs arbitrary: k) simp_all

lemma triangle_bounds_nth:
  "i < length tris \<Longrightarrow> triangle_bounds env k tris ! i = triangle_bound env (k + i) (tris ! i)"
proof (induction tris arbitrary: k i)
  case Nil
  then show ?case by simp
next
  case (Cons t ts)
  show ?case
  proof (cases i)
    case 0
    then show ?thesis by simp
  next
    case (Suc j)
    with Cons.prems have "j < length ts" by simp
    from Cons.IH [OF this, of "Suc k"] Suc show ?thesis by simp
  qed
qed

lemma create_triaccel_eq:
  "create_triaccel env prim i m j acc =
     (if face_readable m j
      then Inr (fst acc @ [face_triangle i prim m j],
                snd acc @ [triangle_bound env (length (snd acc)) (face_triangle i prim m j)])
      else Inl OutOfBounds)"
proof (cases "3 * j + 2 < length (Faces m)")
  case False
  then show ?thesis
    by (simp add: create_triaccel_def face_readable_def read_at_def)
next
  case True
  then have r: "read_at (Faces m) (3 * j) = Inr (Faces m ! (3 * j))"
    "read_at (Faces m) (3 * j + 1) = Inr (Faces m ! (3 * j + 1))"
    "read_at (Faces m) (3 * j + 2) = Inr (Faces m ! (3 * j + 2))"
    by (simp_all add: read_at_def)
  show ?thesis
    using True
    by (simp add: create_triaccel_def r position_at_eq face_readable_def Let_def
        face_triangle_def world_position_def)
qed

lemma faces_loop_eq:
  "faces_loop env prim i m js acc =
     (if list_all (face_readable m) js
      then Inr (fst acc @ map (face_triangle i prim m) js,
                snd acc @ triangle_bounds env (length (snd acc)) (map (face_triangle i prim m) js))
      else Inl OutOfBounds)"
  by (induction js arbitrary: acc) (simp_all add: create_triaccel_eq)

lemma create_triaccels_eq:
  "create_triaccels env prims i acc =
     (if scene_readable prims
      then Inr (fst acc @ scene_triangles i prims,
                snd acc @ triangle_bounds env (length (snd acc)) (scene_triangles i prims))
      else Inl OutOfBounds)"
proof (induction prims arbitrary: i acc)
  case Nil
  show ?case by (simp add: scene_readable_def)
next
  case (Cons prim prims)
  show ?case
  proof (cases "mesh prim")
    case None
    then show ?thesis
      using Cons.IH [of "Suc i" acc]
      by (simp add: scene_readable_def mesh_triangles_def)
  next
    case (Some m)
    then show ?thesis
      using Cons.IH [of "Suc i"]
      by (simp add: scene_readable_def mesh_triangles_def faces_loop_eq triangle_bounds_append)
  qed
qed

lemma mesh_consistent_readable:
  assumes "mesh_consistent m"
  shows "list_all (face_readable m) [0..<NumFaces m]"
proof -
  have len: "3 * NumFaces m \<le> length (Faces m)"
    and all: "list_all (index_in_range m) (take (3 * NumFaces m) (Faces m))"
    using assms by (simp_all add: mesh_consistent_def)
  have k: "k < 3 * NumFaces m \<Longrightarrow> position_readable (Positions m) (Faces m ! k)" for k
    using all len by (simp add: list_all_length index_in_range_readable)
  have "face_readable m j" if "j < NumFaces m" for j
    using that len k [of "3 * j"] k [of "3 * j + 1"] k [of "3 * j + 2"]
    by (simp add: face_readable_def)
  then show ?thesis
    by (simp add: list_all_iff)
qed

lemma scene_consistent_readable:
  assumes "scene_consistent scene"
  shows "scene_readable scene"
  unfolding scene_readable_def list_all_iff
proof
  fix prim assume p: "prim \<in> set scene"
  show "case mesh prim of None \<Rightarrow> True
        | Some m \<Rightarrow> \<forall>j\<in>set [0..<NumFaces m]. face_readable m j"
  proof (cases "mesh prim")
    case None
    then show ?thesis by simp
  next
    case (Some m)
    with assms p have "mesh_consistent m"
      by (auto simp: scene_consistent_def list_all_iff)
    from mesh_consistent_readable [OF this] Some show ?thesis
      by (simp add: list_all_iff)
  qed
qed



text \<open>
  \<open>Build_rec\<close> on a range that is not empty and leaves \<open>bounds\<close>: the union loop reads
  outside the vector.
\<close>

lemma Build_rec_out:
  assumes "b < e" and "length bounds < e"
  shows "Build_rec env bounds nodes b e = Inl OutOfBounds"
proof -
  have "\<exists>i\<in>set [b..<e]. \<not> i < length bounds"
  proof (rule bexI [of _ "e - 1"])
    show "\<not> e - 1 < length bounds" using assms by linarith
    show "e - 1 \<in> set [b..<e]" using assms by simp
  qed
  then have "union_range bounds [b..<e] (Bound_new (behind_node env (length nodes))) = Inl OutOfBounds"
    by (rule union_range_out)
  then show ?thesis
    by (subst Build_rec.simps) (simp add: BVHNode_new_def)
qed

text \<open>
  \<open>Build\<close>, case by case. On an accelerator without triangles and a readable scene it
  returns \<open>true\<close>, with the triangles of the scene and a block of nodes laid out for them.
  If a read of the mesh data leaves its array, or the accelerator already holds triangles
  and anything at all is there to build, the behaviour is undefined.
\<close>

lemma Build_fresh:
  assumes "accel_triangles this = []" and "scene_readable scene"
  shows "\<exists>nodes. Build env scene this
                   = Inr (True, \<lparr>accel_triangles = scene_triangles 0 scene, accel_nodes = nodes\<rparr>)
               \<and> built env (triangle_bounds env 0 (scene_triangles 0 scene)) 0 0
                    (length (scene_triangles 0 scene)) nodes"
proof -
  obtain blk where
    b: "Build_rec env (triangle_bounds env 0 (scene_triangles 0 scene)) [] 0
          (length (scene_triangles 0 scene)) = Inr (blk, 0)"
    and t: "built env (triangle_bounds env 0 (scene_triangles 0 scene)) 0 0
          (length (scene_triangles 0 scene)) blk"
    using Build_rec_built [of "length (scene_triangles 0 scene)"
        "triangle_bounds env 0 (scene_triangles 0 scene)" env "[]" 0]
    by auto
  have "Build env scene this
          = Inr (True, \<lparr>accel_triangles = scene_triangles 0 scene, accel_nodes = blk\<rparr>)"
    using assms b by (simp add: Build_def create_triaccels_eq)
  with t show ?thesis by blast
qed

lemma Build_unreadable: "\<not> scene_readable scene \<Longrightarrow> Build env scene this = Inl OutOfBounds"
  by (simp add: Build_def create_triaccels_eq)

lemma Build_again:
  assumes "accel_triangles this \<noteq> []"
  shows "Build env scene this = Inl OutOfBounds"
proof (cases "scene_readable scene")
  case False
  then show ?thesis by (rule Build_unreadable)
next
  case True
  have "Build_rec env (triangle_bounds env 0 (scene_triangles 0 scene)) [] 0
          (length (accel_triangles this @ scene_triangles 0 scene)) = Inl OutOfBounds"
    using assms by (intro Build_rec_out) (cases "accel_triangles this"; simp)+
  with True show ?thesis
    by (simp add: Build_def create_triaccels_eq)
qed

lemma Build_Inr_iff:
  "(Build env scene this = Inr r) =
     (accel_triangles this = [] \<and> scene_readable scene
      \<and> fst r \<and> accel_triangles (snd r) = scene_triangles 0 scene
      \<and> Build_rec env (triangle_bounds env 0 (scene_triangles 0 scene)) [] 0
           (length (scene_triangles 0 scene)) = Inr (accel_nodes (snd r), 0))"
proof (cases "accel_triangles this = [] \<and> scene_readable scene")
  case False
  then have "Build env scene this = Inl OutOfBounds"
    using Build_again Build_unreadable by blast
  with False show ?thesis by auto
next
  case True
  obtain blk where
    b: "Build_rec env (triangle_bounds env 0 (scene_triangles 0 scene)) [] 0
          (length (scene_triangles 0 scene)) = Inr (blk, 0)"
    using Build_rec_built [of "length (scene_triangles 0 scene)"
        "triangle_bounds env 0 (scene_triangles 0 scene)" env "[]" 0]
    by auto
  have "Build env scene this
          = Inr (True, \<lparr>accel_triangles = scene_triangles 0 scene, accel_nodes = blk\<rparr>)"
    using True b by (simp add: Build_def create_triaccels_eq)
  with True b show ?thesis
    by (cases r) auto
qed

lemma Build_Inr_built:
  assumes "Build env scene this = Inr (ok, st)"
  shows "ok" and "accel_triangles st = scene_triangles 0 scene"
    and "built env (triangle_bounds env 0 (accel_triangles st)) 0 0
           (length (accel_triangles st)) (accel_nodes st)"
proof -
  have f: "accel_triangles this = []" "scene_readable scene"
    and r: "ok" "accel_triangles st = scene_triangles 0 scene"
    and b: "Build_rec env (triangle_bounds env 0 (scene_triangles 0 scene)) [] 0
           (length (scene_triangles 0 scene)) = Inr (accel_nodes st, 0)"
    using assms by (simp_all add: Build_Inr_iff)
  show "ok" and "accel_triangles st = scene_triangles 0 scene"
    by (rule r)+
  from Build_rec_built [of "length (scene_triangles 0 scene)"
        "triangle_bounds env 0 (scene_triangles 0 scene)" env "[]" 0] b
  show "built env (triangle_bounds env 0 (accel_triangles st)) 0 0
           (length (accel_triangles st)) (accel_nodes st)"
    by (simp add: r)
qed

section \<open>The traversal is a linear scan\<close>

lemma leaf_loop_append:
  "leaf_loop ti tris ray minT (xs @ ys) acc =
     (case leaf_loop ti tris ray minT xs acc of
        Inl e \<Rightarrow> Inl e
      | Inr acc' \<Rightarrow> leaf_loop ti tris ray minT ys acc')"
proof (induction xs arbitrary: acc)
  case Nil
  show ?case by simp
next
  case (Cons i xs)
  show ?case
  proof (cases "i < length tris")
    case False
    then show ?thesis by simp
  next
    case True
    show ?thesis
    proof (cases "ti (loaded (tris ! i)) ray minT (maxT (snd acc))")
      case None
      with True Cons.IH [of acc] show ?thesis by simp
    next
      case (Some uvt)
      obtain u v t where "uvt = (u, v, t)" by (cases uvt)
      with Some True Cons.IH [of "(True, \<lparr>maxT = t, minIndex_minB = Some (i, u, v)\<rparr>)"]
      show ?thesis by simp
    qed
  qed
qed

lemma leaf_loop_flag:
  "leaf_loop ti tris ray minT xs (h, st) =
     map_sum id (\<lambda>r. (h \<or> fst r, snd r)) (leaf_loop ti tris ray minT xs (False, st))"
proof (induction xs arbitrary: h st)
  case Nil
  show ?case by simp
next
  case (Cons i xs)
  show ?case
  proof (cases "i < length tris")
    case False
    then show ?thesis by simp
  next
    case True
    show ?thesis
    proof (cases "ti (loaded (tris ! i)) ray minT (maxT st)")
      case None
      with True Cons.IH [of h st] show ?thesis by simp
    next
      case (Some uvt)
      obtain u v t where uvt: "uvt = (u, v, t)" by (cases uvt)
      define st1 where "st1 = \<lparr>maxT = t, minIndex_minB = Some (i, u, v)\<rparr>"
      have l: "leaf_loop ti tris ray minT (i # xs) (h, st) = leaf_loop ti tris ray minT xs (True, st1)"
        for h
        using Some True uvt by (simp add: st1_def)
      have "leaf_loop ti tris ray minT xs (True, st1)
              = map_sum id (\<lambda>r. (h \<or> fst r, snd r)) (leaf_loop ti tris ray minT xs (True, st1))"
        by (subst (1 2) Cons.IH [of True st1])
           (cases "leaf_loop ti tris ray minT xs (False, st1)"; simp)
      then show ?thesis by (simp only: l)
    qed
  qed
qed

lemma leaf_loop_all_miss:
  "\<forall>i\<in>set xs. i < length tris \<and> ti (loaded (tris ! i)) ray minT (maxT (snd acc)) = None \<Longrightarrow>
   leaf_loop ti tris ray minT xs acc = Inr acc"
  by (induction xs) simp_all

lemma range_bound_encloses:
  "b \<le> i \<Longrightarrow> i < e \<Longrightarrow> encloses (range_bound env idx bounds b e) (bounds ! i)"
  unfolding range_bound_def by (rule foldl_Union_encloses) simp

lemma built_nonempty: "built env bounds off b e blk \<Longrightarrow> blk \<noteq> []"
  by (induction rule: built.induct) simp_all

lemma culled_range_misses:
  assumes cons: "bound_test_conservative bi ti env tris ray"
    and e: "e \<le> length tris"
    and cull: "\<not> bi (range_bound env idx (triangle_bounds env 0 tris) b e) ray minT (maxT st)"
  shows "leaf_loop ti tris ray minT [b..<e] (False, st) = Inr (False, st)"
proof (rule leaf_loop_all_miss, rule ballI)
  fix i assume "i \<in> set [b..<e]"
  then have i: "b \<le> i" "i < e" by simp_all
  then have il: "i < length tris" using e by simp
  have "encloses (range_bound env idx (triangle_bounds env 0 tris) b e)
          (triangle_bound env i (tris ! i))"
    using range_bound_encloses [OF i, of env idx "triangle_bounds env 0 tris"] il
    by (simp add: triangle_bounds_nth)
  then have "ti (loaded (tris ! i)) ray minT (maxT st) = None"
    using cons cull il unfolding bound_test_conservative_def by blast
  with il show "i < length tris \<and> ti (loaded (tris ! i)) ray minT (maxT (snd (False, st))) = None"
    by simp
qed

lemma Intersect_rec_scan:
  assumes cons: "bound_test_conservative bi ti env tris ray"
  shows "built env (triangle_bounds env 0 tris) off b e blk \<Longrightarrow> e \<le> length tris \<Longrightarrow>
         length pre = off \<Longrightarrow> length blk \<le> depth \<Longrightarrow>
         Intersect_rec bi ti (pre @ blk @ post) tris ray minT depth off st
           = Some (leaf_loop ti tris ray minT [b..<e] (False, st))"
proof (induction arbitrary: pre post depth st rule: built.induct)
  case (leaf e b off)
  obtain d where d: "depth = Suc d"
    using leaf.prems(3) by (cases depth) simp_all
  show ?case
  proof (cases "bi (range_bound env off (triangle_bounds env 0 tris) b e) ray minT (maxT st)")
    case True
    then show ?thesis
      using leaf.prems(2) by (simp add: d nth_append)
  next
    case False
    from culled_range_misses [OF cons leaf.prems(1) False]
    show ?thesis
      using False leaf.prems(2) by (simp add: d nth_append)
  qed
next
  case (internal e b mid off blk1 blk2)
  obtain d where d: "depth = Suc d"
    using internal.prems(3) by (cases depth) simp_all
  define n where "n = \<lparr>isleaf = False, bound = range_bound env off (triangle_bounds env 0 tris) b e,
                       slot0 = Suc off, slot1 = Suc off + length blk1\<rparr>"
  have big: "10 \<le> e - b" using internal.hyps(1) by (simp add: LeafNumNodes_def)
  have mid: "b \<le> mid" "mid \<le> e"
    using big internal.hyps(2) by simp_all
  have split: "[b..<e] = [b..<mid] @ [mid..<e]"
    using mid by (metis le_Suc_ex upt_add_eq_append)
  have node: "(pre @ (n # blk1 @ blk2) @ post) ! off = n" "off < length (pre @ (n # blk1 @ blk2) @ post)"
    using internal.prems(2) by (simp_all add: nth_append)
  show ?case
  proof (cases "bi (range_bound env off (triangle_bounds env 0 tris) b e) ray minT (maxT st)")
    case False
    from culled_range_misses [OF cons internal.prems(1) False]
    show ?thesis
      using False node unfolding n_def [symmetric] by (simp add: d n_def)
  next
    case True
    have c1: "Intersect_rec bi ti (pre @ (n # blk1 @ blk2) @ post) tris ray minT d (Suc off) st'
                = Some (leaf_loop ti tris ray minT [b..<mid] (False, st'))" for st'
      using internal.IH(1) [of "pre @ [n]" d "blk2 @ post" st'] internal.prems mid
      by (simp add: d)
    have c2: "Intersect_rec bi ti (pre @ (n # blk1 @ blk2) @ post) tris ray minT d
                  (Suc off + length blk1) st'
                = Some (leaf_loop ti tris ray minT [mid..<e] (False, st'))" for st'
      using internal.IH(2) [of "pre @ n # blk1" d post st'] internal.prems
      by (simp add: d)
    have unfold: "Intersect_rec bi ti (pre @ (n # blk1 @ blk2) @ post) tris ray minT depth off st
        = (case leaf_loop ti tris ray minT [b..<mid] (False, st) of
             Inl x \<Rightarrow> Some (Inl x)
           | Inr (hit1, st1) \<Rightarrow>
               (case leaf_loop ti tris ray minT [mid..<e] (False, st1) of
                  Inl x \<Rightarrow> Some (Inl x)
                | Inr (hit2, st2) \<Rightarrow> Some (Inr (hit1 \<or> hit2, st2))))"
      using True node c1 c2 by (simp add: d n_def Let_def split: sum.split prod.split)
    have "(case leaf_loop ti tris ray minT [b..<mid] (False, st) of
             Inl x \<Rightarrow> Some (Inl x)
           | Inr (hit1, st1) \<Rightarrow>
               (case leaf_loop ti tris ray minT [mid..<e] (False, st1) of
                  Inl x \<Rightarrow> Some (Inl x)
                | Inr (hit2, st2) \<Rightarrow> Some (Inr (hit1 \<or> hit2, st2))))
          = Some (leaf_loop ti tris ray minT [b..<e] (False, st))"
    proof (cases "leaf_loop ti tris ray minT [b..<mid] (False, st)")
      case (Inl x)
      then show ?thesis by (simp add: split leaf_loop_append)
    next
      case (Inr r1)
      obtain hit1 st1 where r1: "r1 = (hit1, st1)" by (cases r1)
      show ?thesis
        using Inr r1 leaf_loop_flag [of ti tris ray minT "[mid..<e]" hit1 st1]
        by (cases "leaf_loop ti tris ray minT [mid..<e] (False, st1)")
           (auto simp: split leaf_loop_append)
    qed
    with unfold show ?thesis
      unfolding n_def by simp
  qed
qed

section \<open>The linear scan finds the nearest triangle\<close>

lemma window_filters_candidate:
  assumes "window_filters ti tris ray" and "i < length tris"
  shows "(ti (loaded (tris ! i)) ray lo hi = Some uvt) = candidate ti tris ray lo hi i uvt"
proof -
  have "tris ! i \<in> set tris" using assms(2) by simp
  with assms(1) have
    "ti (loaded (tris ! i)) ray lo hi =
       (case ti (loaded (tris ! i)) ray NInf PInf of
          None \<Rightarrow> None
        | Some (u, v, t) \<Rightarrow> if lo \<le> t \<and> t \<le> hi then Some (u, v, t) else None)"
    unfolding window_filters_def by blast
  then show ?thesis
    using assms(2)
    by (cases "ti (loaded (tris ! i)) ray NInf PInf"; cases uvt)
       (auto simp: candidate_def split: if_splits)
qed

lemma candidate_narrow:
  "candidate ti tris ray lo hi i uvt \<Longrightarrow> snd (snd uvt) \<le> t \<Longrightarrow> candidate ti tris ray lo t i uvt"
  by (simp add: candidate_def)

lemma candidate_widen:
  "candidate ti tris ray lo t i uvt \<Longrightarrow> t \<le> hi \<Longrightarrow> candidate ti tris ray lo hi i uvt"
  by (auto simp: candidate_def)

lemma candidate_unique:
  "candidate ti tris ray lo hi i uvt \<Longrightarrow> candidate ti tris ray lo' hi' i uvt' \<Longrightarrow> uvt = uvt'"
  by (simp add: candidate_def)

lemma candidate_upper: "candidate ti tris ray lo hi i uvt \<Longrightarrow> snd (snd uvt) \<le> hi"
  by (simp add: candidate_def)

lemma leaf_loop_nearest:
  assumes win: "window_filters ti tris ray"
  shows "\<forall>i\<in>set xs. i < length tris \<Longrightarrow>
         \<exists>res. leaf_loop ti tris ray lo xs (h, st) = Inr res
               \<and> nearest_result ti tris ray lo (maxT st) (set xs) (h, st) res"
proof (induction xs arbitrary: h st)
  case Nil
  show ?case by (simp add: nearest_result_def)
next
  case (Cons i xs)
  have i: "i < length tris" and xs: "\<forall>i\<in>set xs. i < length tris"
    using Cons.prems by simp_all
  note wc = window_filters_candidate [OF win i]
  show ?case
  proof (cases "ti (loaded (tris ! i)) ray lo (maxT st)")
    case None
    have no: "\<not> candidate ti tris ray lo (maxT st) i uvt" for uvt
      using None wc [of lo "maxT st" uvt] by simp
    from Cons.IH [OF xs, of h st] obtain res where
      r: "leaf_loop ti tris ray lo xs (h, st) = Inr res"
      and n: "nearest_result ti tris ray lo (maxT st) (set xs) (h, st) res"
      by blast
    have "leaf_loop ti tris ray lo (i # xs) (h, st) = Inr res"
      using None i r by simp
    moreover have "nearest_result ti tris ray lo (maxT st) (set (i # xs)) (h, st) res"
      using n no unfolding nearest_result_def by (auto split: if_splits)
    ultimately show ?thesis by blast
  next
    case (Some uvt)
    obtain u v t where uvt: "uvt = (u, v, t)" by (cases uvt)
    have ci: "candidate ti tris ray lo (maxT st) i (u, v, t)"
      using Some wc [of lo "maxT st" uvt] uvt by simp
    then have t_hi: "t \<le> maxT st"
      by (simp add: candidate_def)
    define st1 where "st1 = \<lparr>maxT = t, minIndex_minB = Some (i, u, v)\<rparr>"
    from Cons.IH [OF xs, of True st1] obtain res where
      r: "leaf_loop ti tris ray lo xs (True, st1) = Inr res"
      and n: "nearest_result ti tris ray lo t (set xs) (True, st1) res"
      by (auto simp: st1_def)
    have run: "leaf_loop ti tris ray lo (i # xs) (h, st) = Inr res"
      using Some uvt i r by (simp add: st1_def)
    have ex: "\<exists>k\<in>set (i # xs). \<exists>w. candidate ti tris ray lo (maxT st) k w"
      using ci by auto
    have goal: "fst res
           \<and> (\<exists>k\<in>set (i # xs). \<exists>u' v'. candidate ti tris ray lo (maxT st) k (u', v', maxT (snd res))
                          \<and> minIndex_minB (snd res) = Some (k, u', v'))
           \<and> (\<forall>k\<in>set (i # xs). \<forall>w. candidate ti tris ray lo (maxT st) k w
                  \<longrightarrow> maxT (snd res) \<le> snd (snd w))"
    proof (cases "\<exists>k\<in>set xs. \<exists>w. candidate ti tris ray lo t k w")
      case True
      with n have f: "fst res"
        and p: "\<exists>k\<in>set xs. \<exists>u' v'. candidate ti tris ray lo t k (u', v', maxT (snd res))
                          \<and> minIndex_minB (snd res) = Some (k, u', v')"
        and l: "\<forall>k\<in>set xs. \<forall>w. candidate ti tris ray lo t k w \<longrightarrow> maxT (snd res) \<le> snd (snd w)"
        unfolding nearest_result_def by simp_all
      from p obtain k u' v' where
        k: "k \<in> set xs" "candidate ti tris ray lo t k (u', v', maxT (snd res))"
           "minIndex_minB (snd res) = Some (k, u', v')"
        by blast
      have le_t: "maxT (snd res) \<le> t"
        using candidate_upper [OF k(2)] by simp
      have p': "\<exists>k\<in>set (i # xs). \<exists>u' v'. candidate ti tris ray lo (maxT st) k (u', v', maxT (snd res))
                          \<and> minIndex_minB (snd res) = Some (k, u', v')"
        using k candidate_widen [OF k(2) t_hi] by auto
      have l': "maxT (snd res) \<le> snd (snd w)"
        if kk: "kk \<in> set (i # xs)" and c: "candidate ti tris ray lo (maxT st) kk w" for kk w
      proof (cases "snd (snd w) \<le> t")
        case False
        with le_t show ?thesis by simp
      next
        case True
        note narrow = candidate_narrow [OF c True]
        show ?thesis
        proof (cases "kk \<in> set xs")
          case True
          with l narrow show ?thesis by blast
        next
          case False
          with kk have "kk = i" by simp
          with c ci have "w = (u, v, t)" by (auto dest: candidate_unique)
          with le_t show ?thesis by simp
        qed
      qed
      from f p' l' show ?thesis by blast
    next
      case False
      with n have res: "res = (True, st1)"
        unfolding nearest_result_def by simp
      have l': "maxT (snd res) \<le> snd (snd w)"
        if kk: "kk \<in> set (i # xs)" and c: "candidate ti tris ray lo (maxT st) kk w" for kk w
      proof (cases "kk \<in> set xs")
        case True
        with False have "\<not> candidate ti tris ray lo t kk w" by blast
        with candidate_narrow [OF c, of t] have "\<not> snd (snd w) \<le> t" by blast
        then show ?thesis by (simp add: res st1_def)
      next
        case False
        with kk have "kk = i" by simp
        with c ci have "w = (u, v, t)" by (auto dest: candidate_unique)
        then show ?thesis by (simp add: res st1_def)
      qed
      have p': "\<exists>k\<in>set (i # xs). \<exists>u' v'. candidate ti tris ray lo (maxT st) k (u', v', maxT (snd res))
                          \<and> minIndex_minB (snd res) = Some (k, u', v')"
        using ci by (auto simp: res st1_def)
      from p' l' show ?thesis by (simp add: res)
    qed
    have "nearest_result ti tris ray lo (maxT st) (set (i # xs)) (h, st) res"
      unfolding nearest_result_def using ex goal by simp
    with run show ?thesis by blast
  qed
qed

section \<open>Build on the worked examples, and the claims about Build\<close>

lemma Float_arith [simp]:
  "Fin a + Fin b = Fin (a + b)" "Fin a - Fin b = Fin (a - b)" "Fin a * Fin b = Fin (a * b)"
  "(Fin a \<le> Fin b) = (a \<le> b)"
  by simp_all

lemma one_triangle_scene_triangles:
  "scene_triangles 0 one_triangle_scene = [one_triangle]"
  by (simp add: one_triangle_scene_def one_triangle_mesh_def mesh_triangles_def
      face_triangle_def world_position_def example_positions_def one_triangle_def
      mult_TMat4_TVec4_def TMat4_Identity_def TMat4_init_def Vec3_of_Vec4_def
      zero_Float_def one_Float_def)

lemma one_triangle_bound_eq: "triangle_bound example_env k one_triangle = one_triangle_bound"
  by (simp add: triangle_bound_def one_triangle_def expand_def vertices_bound_def
      Union_Point_def Bound_new_lanes Math_Min_def Math_Max_def Vec3_of_Float_def
      example_env_def zero_filled_def example_eps_def one_triangle_bound_def)

lemma example_env_behind [simp]:
  "behind_bound example_env k = zero_filled" "behind_node example_env idx = zero_filled"
  by (simp_all add: example_env_def)

lemma Bound_new_zero_filled:
  "Bound_new zero_filled
     = \<lparr>bound_min = TVec3 PInf (Fin 0) (Fin 0), bound_max = TVec3 NInf (Fin 0) (Fin 0)\<rparr>"
  by (simp add: Bound_new_lanes zero_filled_def)

lemma Union_zero_one_triangle:
  "Union_Bound (Bound_new zero_filled) one_triangle_bound = one_triangle_bound"
  by (simp add: Bound_new_zero_filled Union_Bound_def one_triangle_bound_def Math_Min_def
      Math_Max_def)

lemma one_triangle_scene_readable: "scene_readable one_triangle_scene"
  by (simp add: scene_readable_def one_triangle_scene_def one_triangle_mesh_def
      face_readable_def position_readable_def example_positions_def)

lemma wrapped_scene_readable: "scene_readable wrapped_scene"
  by (simp add: scene_readable_def wrapped_scene_def wrapped_mesh_def
      face_readable_def position_readable_def example_positions_def)

lemma short_scene_unreadable: "\<not> scene_readable short_scene"
  by (simp add: scene_readable_def short_scene_def short_mesh_def
      face_readable_def position_readable_def example_positions_def)

lemma one_triangle_scene_consistent: "scene_consistent one_triangle_scene"
  by (simp add: scene_consistent_def one_triangle_scene_def one_triangle_mesh_def
      mesh_consistent_def index_in_range_def example_positions_def)

lemma wrapped_scene_inconsistent: "\<not> scene_consistent wrapped_scene"
  by (simp add: scene_consistent_def wrapped_scene_def wrapped_mesh_def
      mesh_consistent_def index_in_range_def example_positions_def)

lemma Build_one_triangle:
  "Build example_env one_triangle_scene Accel_BVH_new = Inr (True, built_once)"
  by (simp add: Build_def create_triaccels_eq one_triangle_scene_readable
      one_triangle_scene_triangles Accel_BVH_new_def one_triangle_bound_eq
      Build_rec.simps [of _ _ _ 0 "Suc 0"] LeafNumNodes_def BVHNode_new_def built_once_def
      set_node_def Union_zero_one_triangle)

lemma upt_10: "[0..<10] = [0, 1, 2, 3, 4, 5, 6, 7, 8, 9]"
  by (simp add: upt_conv_Cons)

lemma upt_5: "[0..<5] = [0, 1, 2, 3, 4]" "[5..<10] = [5, 6, 7, 8, 9]"
  by (simp_all add: upt_conv_Cons)

lemma length_planes [simp]: "length far_first = 10" "length near_first = 10"
  by (simp_all add: far_first_def near_first_def)

lemma length_plane_triangles [simp]: "length (plane_triangles i cs) = length cs"
  by (simp add: plane_triangles_def)

lemma far_first_triangles:
  "scene_triangles i far_first_scene = plane_triangles i far_first"
  by (simp add: far_first_scene_def upt_10 planes_prim_def planes_mesh_def far_first_def
      plane_positions_def mesh_triangles_def face_triangle_def world_position_def
      plane_triangles_def plane_triangle_def mult_TMat4_TVec4_def TMat4_Identity_def
      TMat4_init_def Vec3_of_Vec4_def zero_Float_def one_Float_def)

lemma near_first_triangles:
  "scene_triangles i near_first_scene = plane_triangles i near_first"
  by (simp add: near_first_scene_def upt_10 planes_prim_def planes_mesh_def near_first_def
      plane_positions_def mesh_triangles_def face_triangle_def world_position_def
      plane_triangles_def plane_triangle_def mult_TMat4_TVec4_def TMat4_Identity_def
      TMat4_init_def Vec3_of_Vec4_def zero_Float_def one_Float_def)

lemma gap_triangles: "scene_triangles 0 gap_scene = plane_triangles 1 far_first"
  using far_first_triangles [of 1]
  by (simp add: gap_scene_def mesh_triangles_def far_first_scene_def)

lemma planes_readable: "scene_readable far_first_scene" "scene_readable near_first_scene"
  by (simp_all add: far_first_scene_def near_first_scene_def upt_10 scene_readable_def
      planes_prim_def planes_mesh_def far_first_def near_first_def plane_positions_def
      face_readable_def position_readable_def)

lemma gap_readable: "scene_readable gap_scene"
  using planes_readable(1)
  by (simp add: scene_readable_def gap_scene_def far_first_scene_def)

lemma plane_bound: "triangle_bound example_env k (plane_triangle i j c) = plane_box c c"
  by (simp add: triangle_bound_def plane_triangle_def expand_def vertices_bound_def
      Union_Point_def Bound_new_lanes Math_Min_def Math_Max_def Vec3_of_Float_def
      example_env_def zero_filled_def example_eps_def plane_box_def)

lemma Union_zero_plane_box:
  "Union_Bound (Bound_new zero_filled) (plane_box a b) = plane_box a b"
  by (simp add: Bound_new_zero_filled Union_Bound_def plane_box_def Math_Min_def Math_Max_def)

lemma plane_box_Union:
  "Union_Bound (plane_box a b) (plane_box a' b') = plane_box (min a a') (max b b')"
  by (simp add: Union_Bound_def plane_box_def Math_Min_def Math_Max_def min_def max_def)

text \<open>
  \<open>Build_rec\<close> on the ten bounds: the root, then the leaf of the triangles \<open>0\<close> to \<open>4\<close>, then
  the leaf of the triangles \<open>5\<close> to \<open>9\<close>.
\<close>

lemma Build_rec_far_first:
  "Build_rec example_env (triangle_bounds example_env 0 (plane_triangles i far_first)) [] 0 10
     = Inr (far_first_nodes, 0)"
  by (simp add: Build_rec.simps [of _ _ _ 0 10] Build_rec.simps [of _ _ _ 0 5]
      Build_rec.simps [of _ _ _ 5 10] upt_10 upt_5 plane_bound Union_zero_plane_box plane_box_Union
      plane_triangles_def far_first_def
      LeafNumNodes_def BVHNode_new_def set_node_def far_first_nodes_def)

lemma Build_rec_near_first:
  "Build_rec example_env (triangle_bounds example_env 0 (plane_triangles i near_first)) [] 0 10
     = Inr (near_first_nodes, 0)"
  by (simp add: Build_rec.simps [of _ _ _ 0 10] Build_rec.simps [of _ _ _ 0 5]
      Build_rec.simps [of _ _ _ 5 10] upt_10 upt_5 plane_bound Union_zero_plane_box plane_box_Union
      plane_triangles_def near_first_def
      LeafNumNodes_def BVHNode_new_def set_node_def near_first_nodes_def)

lemma Build_far_first:
  "Build example_env far_first_scene Accel_BVH_new = Inr (True, far_first_accel 0)"
  using Build_rec_far_first [of 0]
  by (simp add: Build_Inr_iff planes_readable far_first_triangles
      Accel_BVH_new_def far_first_accel_def)

lemma Build_near_first:
  "Build example_env near_first_scene Accel_BVH_new = Inr (True, near_first_accel)"
  using Build_rec_near_first [of 0]
  by (simp add: Build_Inr_iff planes_readable near_first_triangles
      Accel_BVH_new_def near_first_accel_def)

lemma Build_gap:
  "Build example_env gap_scene Accel_BVH_new = Inr (True, far_first_accel 1)"
  using Build_rec_far_first [of 1]
  by (simp add: Build_Inr_iff gap_readable gap_triangles
      Accel_BVH_new_def far_first_accel_def)

text \<open>
  Claim C1, as the code has it. \<open>Build\<close> has no failure return: whenever it returns, it
  returns \<open>true\<close>. On an accelerator that holds no triangles yet it returns \<open>true\<close> for
  every scene whose meshes are consistent (three indices per face, each inside the
  position array). It does not check the indices: when a read of the mesh data leaves its
  array the behaviour is undefined (\<open>OutOfBounds\<close>), and nothing is reported to the
  caller.
\<close>

theorem Build_returns_true:
  "(accel_triangles this = [] \<and> scene_consistent scene
      \<longrightarrow> (\<exists>st. Build env scene this = Inr (True, st)))
   \<and> (\<forall>st. Build env scene this \<noteq> Inr (False, st))
   \<and> (\<not> scene_readable scene \<longrightarrow> Build env scene this = Inl OutOfBounds)"
proof (intro conjI impI allI)
  assume "accel_triangles this = [] \<and> scene_consistent scene"
  then have "accel_triangles this = []" "scene_readable scene"
    by (simp_all add: scene_consistent_readable)
  from Build_fresh [OF this] show "\<exists>st. Build env scene this = Inr (True, st)"
    by blast
next
  fix st
  show "Build env scene this \<noteq> Inr (False, st)"
    by (simp add: Build_Inr_iff)
next
  assume "\<not> scene_readable scene"
  then show "Build env scene this = Inl OutOfBounds"
    by (rule Build_unreadable)
qed

text \<open>
  The theorem at \<open>one_triangle_scene\<close>, which is consistent, and at \<open>short_scene\<close>, whose
  face \<open>(0, 1, 3)\<close> reads behind the nine positions.
\<close>

theorem Build_returns_true_witness:
  "accel_triangles Accel_BVH_new = [] \<and> scene_consistent one_triangle_scene
   \<and> Build example_env one_triangle_scene Accel_BVH_new = Inr (True, built_once)
   \<and> \<not> scene_readable short_scene
   \<and> Build example_env short_scene Accel_BVH_new = Inl OutOfBounds"
proof -
  have f: "accel_triangles Accel_BVH_new = []"
    by (simp add: Accel_BVH_new_def)
  note T = Build_returns_true [of Accel_BVH_new one_triangle_scene example_env]
  have "\<exists>st. Build example_env one_triangle_scene Accel_BVH_new = Inr (True, st)"
    using T f one_triangle_scene_consistent by blast
  then have b: "Build example_env one_triangle_scene Accel_BVH_new = Inr (True, built_once)"
    using Build_one_triangle by simp
  have s: "Build example_env short_scene Accel_BVH_new = Inl OutOfBounds"
    using Build_returns_true [of Accel_BVH_new short_scene example_env] short_scene_unreadable
    by blast
  show ?thesis
    by (intro conjI) (rule f, rule one_triangle_scene_consistent, rule b,
        rule short_scene_unreadable, rule s)
qed

text \<open>
  Claim C1 as stated fails: \<open>wrapped_scene\<close> is inconsistent (its face names vertex
  \<open>1431655766\<close> of three), yet every read lands inside the array, because
  \<open>3 * 1431655766\<close> wraps to \<open>2\<close> in \<^verbatim>\<open>unsigned int\<close>, and \<open>Build\<close> returns \<open>true\<close>.
\<close>

theorem Build_accepts_wrapped_index:
  "\<not> scene_consistent wrapped_scene
   \<and> map_sum id fst (Build example_env wrapped_scene Accel_BVH_new) = Inr True"
proof -
  have "accel_triangles Accel_BVH_new = []"
    by (simp add: Accel_BVH_new_def)
  from Build_fresh [OF this wrapped_scene_readable, of example_env]
  have "map_sum id fst (Build example_env wrapped_scene Accel_BVH_new) = Inr True"
    by auto
  with wrapped_scene_inconsistent show ?thesis by simp
qed

text \<open>
  Claim C2 says that a second \<open>Build\<close> discards the triangles of the first. On the code,
  \<open>Build\<close> clears \<^verbatim>\<open>nodes_\<close> but never \<^verbatim>\<open>triangles_\<close>: building \<open>one_triangle_scene\<close> a
  second time appends its triangle again, so \<^verbatim>\<open>triangles_\<close> holds two triangles while the
  fresh \<^verbatim>\<open>bounds_\<close> holds one bound, and \<^verbatim>\<open>Build_(0, 2)\<close> reads \<^verbatim>\<open>bounds_[1]\<close> outside the
  vector, in whatever surroundings \<open>env\<close> the second \<open>Build\<close> runs.
\<close>

theorem Build_twice_out_of_bounds:
  "Build example_env one_triangle_scene Accel_BVH_new = Inr (True, built_once)
   \<and> create_triaccels example_env one_triangle_scene 0 (accel_triangles built_once, [])
       = Inr ([one_triangle, one_triangle], [one_triangle_bound])
   \<and> Build_rec env [one_triangle_bound] [] 0 2 = Inl OutOfBounds
   \<and> Build env one_triangle_scene built_once = Inl OutOfBounds"
proof (intro conjI)
  show "Build example_env one_triangle_scene Accel_BVH_new = Inr (True, built_once)"
    by (rule Build_one_triangle)
  show "create_triaccels example_env one_triangle_scene 0 (accel_triangles built_once, [])
       = Inr ([one_triangle, one_triangle], [one_triangle_bound])"
    by (simp add: create_triaccels_eq one_triangle_scene_readable one_triangle_scene_triangles
        one_triangle_bound_eq built_once_def)
  show "Build_rec env [one_triangle_bound] [] 0 2 = Inl OutOfBounds"
    by (rule Build_rec_out) simp_all
  show "Build env one_triangle_scene built_once = Inl OutOfBounds"
    by (rule Build_again) (simp add: built_once_def)
qed

lemma raised_scene_triangles: "scene_triangles 0 raised_scene = [raised_triangle]"
  by (simp add: raised_scene_def raised_mesh_def mesh_triangles_def face_triangle_def
      world_position_def raised_triangle_def translation_100_def mult_TMat4_TVec4_def
      TMat4_init_def Vec3_of_Vec4_def one_Float_def)

lemma raised_scene_readable: "scene_readable raised_scene"
  by (simp add: scene_readable_def raised_scene_def raised_mesh_def face_readable_def
      position_readable_def)

lemma raised_bound_eq: "triangle_bound example_env k raised_triangle = raised_bound"
  by (simp add: triangle_bound_def raised_triangle_def expand_def vertices_bound_def
      Union_Point_def Bound_new_lanes Math_Min_def Math_Max_def Vec3_of_Float_def
      example_env_def zero_filled_def example_eps_def raised_bound_def)

text \<open>
  Lines 102 to 105 against the smallest box around the three vertices. The computed box
  always encloses that box; it is that box for every triangle only when the default bound
  is the box of the spec.
\<close>

lemma vertices_bound_eq:
  "vertices_bound s p1 p2 p3 = Union_Bound (Bound_new s) (vertices_hull p1 p2 p3)"
  by (simp add: vertices_bound_def vertices_hull_def Union_Point_def Union_Bound_def
      Math_Min_def Math_Max_def min.assoc max.assoc)

lemma vertices_bound_encloses_hull:
  "encloses (vertices_bound s p1 p2 p3) (vertices_hull p1 p2 p3)"
  by (simp add: vertices_bound_eq)

lemma vertices_hull_point: "vertices_hull p p p = point_box p"
  by (cases p) (simp add: vertices_hull_def point_box_def)

lemma vertices_bound_hull_iff:
  "(\<forall>p1 p2 p3. vertices_bound s p1 p2 p3 = vertices_hull p1 p2 p3)
     = (Bound_new s = spec_empty_box)"
proof
  assume "Bound_new s = spec_empty_box"
  then show "\<forall>p1 p2 p3. vertices_bound s p1 p2 p3 = vertices_hull p1 p2 p3"
    by (simp add: vertices_bound_eq)
next
  assume a: "\<forall>p1 p2 p3. vertices_bound s p1 p2 p3 = vertices_hull p1 p2 p3"
  have pt: "Union_Bound (Bound_new s) (point_box p) = point_box p" for p
  proof -
    from a have "vertices_bound s p p p = vertices_hull p p p"
      by blast
    then show ?thesis
      by (simp add: vertices_bound_eq vertices_hull_point)
  qed
  note lo = pt [of "TVec3 PInf PInf PInf"] and hi = pt [of "TVec3 NInf NInf NInf"]
  have "bound_min (Bound_new s) = TVec3 PInf PInf PInf"
    using lo by (simp add: Bound_new_lanes Union_Bound_def point_box_def Math_Min_def)
  moreover have "bound_max (Bound_new s) = TVec3 NInf NInf NInf"
    using hi by (simp add: Bound_new_lanes Union_Bound_def point_box_def Math_Max_def)
  ultimately show "Bound_new s = spec_empty_box"
    by (simp add: Bound_new_lanes spec_empty_box_def Vec3_of_Float_def Math_Inf_def)
qed

text \<open>
  Claim C5 says that the bound of a triangle before the expansion is exactly the union of
  its three world-space vertices. On the code it is not: \<^verbatim>\<open>Bound bound;\<close> in line 102
  starts from a box of which only \<open>x\<close> is infinite, and the three unions keep what lay
  behind the lists wherever it is below the least or above the greatest coordinate. For
  \<open>raised_scene\<close>, whose triangle has the world-space vertices \<open>(100,100,100)\<close>,
  \<open>(101,100,100)\<close>, \<open>(100,101,101)\<close>, with \<open>0\<close> behind the lists: the bound before the
  expansion has the lower corner \<open>(100, 0, 0)\<close>, not \<open>(100, 100, 100)\<close>, and the stored
  bound has the lower corner \<open>(100 - eps, -eps, -eps)\<close>. In general lines 102 to 105 give
  the union of the three vertices for all triangles exactly when the four places read
  behind the lists hold \<open>+infinity\<close>, \<open>+infinity\<close>, \<open>-infinity\<close>, \<open>-infinity\<close>.
\<close>

theorem triangle_bound_not_hull:
  "create_triaccels example_env raised_scene 0 ([], []) = Inr ([raised_triangle], [raised_bound])
   \<and> loaded raised_triangle
       = (TVec3 (Fin 100) (Fin 100) (Fin 100), TVec3 (Fin 101) (Fin 100) (Fin 100),
          TVec3 (Fin 100) (Fin 101) (Fin 101))
   \<and> vertices_bound (behind_bound example_env 0)
        (TVec3 (Fin 100) (Fin 100) (Fin 100)) (TVec3 (Fin 101) (Fin 100) (Fin 100))
        (TVec3 (Fin 100) (Fin 101) (Fin 101))
       = \<lparr>bound_min = TVec3 (Fin 100) (Fin 0) (Fin 0),
          bound_max = TVec3 (Fin 101) (Fin 101) (Fin 101)\<rparr>
   \<and> vertices_hull
        (TVec3 (Fin 100) (Fin 100) (Fin 100)) (TVec3 (Fin 101) (Fin 100) (Fin 100))
        (TVec3 (Fin 100) (Fin 101) (Fin 101))
       = \<lparr>bound_min = TVec3 (Fin 100) (Fin 100) (Fin 100),
          bound_max = TVec3 (Fin 101) (Fin 101) (Fin 101)\<rparr>
   \<and> raised_bound
       = \<lparr>bound_min = TVec3 (Fin (100 - 1 / 1024)) (Fin (0 - 1 / 1024)) (Fin (0 - 1 / 1024)),
          bound_max = TVec3 (Fin (101 + 1 / 1024)) (Fin (101 + 1 / 1024)) (Fin (101 + 1 / 1024))\<rparr>
   \<and> (\<forall>p1 p2 p3. vertices_bound s p1 p2 p3 = vertices_hull p1 p2 p3)
       = (behind_min s 0 = PInf \<and> behind_min s (Suc 0) = PInf
          \<and> behind_max s 0 = NInf \<and> behind_max s (Suc 0) = NInf)"
proof -
  have c: "create_triaccels example_env raised_scene 0 ([], [])
             = Inr ([raised_triangle], [raised_bound])"
    by (simp add: create_triaccels_eq raised_scene_readable raised_scene_triangles
        raised_bound_eq)
  have l: "loaded raised_triangle
       = (TVec3 (Fin 100) (Fin 100) (Fin 100), TVec3 (Fin 101) (Fin 100) (Fin 100),
          TVec3 (Fin 100) (Fin 101) (Fin 101))"
    by (simp add: raised_triangle_def)
  have v: "vertices_bound (behind_bound example_env 0)
        (TVec3 (Fin 100) (Fin 100) (Fin 100)) (TVec3 (Fin 101) (Fin 100) (Fin 100))
        (TVec3 (Fin 100) (Fin 101) (Fin 101))
       = \<lparr>bound_min = TVec3 (Fin 100) (Fin 0) (Fin 0),
          bound_max = TVec3 (Fin 101) (Fin 101) (Fin 101)\<rparr>"
    by (simp add: vertices_bound_def Union_Point_def Bound_new_lanes Math_Min_def Math_Max_def
        example_env_def zero_filled_def)
  have h: "vertices_hull
        (TVec3 (Fin 100) (Fin 100) (Fin 100)) (TVec3 (Fin 101) (Fin 100) (Fin 100))
        (TVec3 (Fin 100) (Fin 101) (Fin 101))
       = \<lparr>bound_min = TVec3 (Fin 100) (Fin 100) (Fin 100),
          bound_max = TVec3 (Fin 101) (Fin 101) (Fin 101)\<rparr>"
    by (simp add: vertices_hull_def)
  have r: "raised_bound
       = \<lparr>bound_min = TVec3 (Fin (100 - 1 / 1024)) (Fin (0 - 1 / 1024)) (Fin (0 - 1 / 1024)),
          bound_max = TVec3 (Fin (101 + 1 / 1024)) (Fin (101 + 1 / 1024)) (Fin (101 + 1 / 1024))\<rparr>"
    by (simp add: raised_bound_def)
  have g: "(\<forall>p1 p2 p3. vertices_bound s p1 p2 p3 = vertices_hull p1 p2 p3)
       = (behind_min s 0 = PInf \<and> behind_min s (Suc 0) = PInf
          \<and> behind_max s 0 = NInf \<and> behind_max s (Suc 0) = NInf)"
    by (simp only: vertices_bound_hull_iff Bound_new_spec_iff)
  show ?thesis
    by (intro conjI) (rule c, rule l, rule v, rule h, rule r, rule g)
qed





section \<open>The bounds of the nodes\<close>











section \<open>Primitives without a mesh\<close>

lemma scene_readable_with_mesh: "scene_readable (with_mesh scene) = scene_readable scene"
  by (induction scene) (auto simp: scene_readable_def with_mesh_def)

lemma mesh_triangles_None: "mesh prim = None \<Longrightarrow> mesh_triangles i prim = []"
  by (simp add: mesh_triangles_def)

lemma mesh_triangles_index:
  "map faceIndex (mesh_triangles i prim) = map faceIndex (mesh_triangles i' prim)"
  "map loaded (mesh_triangles i prim) = map loaded (mesh_triangles i' prim)"
  "map primIndex (mesh_triangles i prim) = replicate (length (mesh_triangles 0 prim)) i"
  by (auto simp: mesh_triangles_def face_triangle_def map_replicate_const comp_def
      split: option.splits)

lemma scene_triangles_with_mesh:
  "map faceIndex (scene_triangles i (with_mesh scene)) = map faceIndex (scene_triangles i' scene)"
  "map loaded (scene_triangles i (with_mesh scene)) = map loaded (scene_triangles i' scene)"
proof (induction scene arbitrary: i i')
  case Nil
  { case 1 show ?case by (simp add: with_mesh_def) }
  { case 2 show ?case by (simp add: with_mesh_def) }
next
  case (Cons prim scene)
  { case 1
    show ?case
      using Cons.IH(1) [of i "Suc i'"] Cons.IH(1) [of "Suc i" "Suc i'"]
        mesh_triangles_index(1) [of i prim i']
      by (cases "mesh prim") (simp_all add: with_mesh_def mesh_triangles_None) }
  { case 2
    show ?case
      using Cons.IH(2) [of i "Suc i'"] Cons.IH(2) [of "Suc i" "Suc i'"]
        mesh_triangles_index(2) [of i prim i']
      by (cases "mesh prim") (simp_all add: with_mesh_def mesh_triangles_None) }
qed

text \<open>The primitive that a triangle names, read from the scene the triangle was built from.\<close>

lemma scene_triangles_owner:
  "map (\<lambda>t. (pre @ scene) ! primIndex t) (scene_triangles (length pre) scene)
     = concat (map (\<lambda>prim. replicate (length (mesh_triangles 0 prim)) prim) scene)"
proof (induction scene arbitrary: pre)
  case Nil
  show ?case by simp
next
  case (Cons prim scene)
  have "map (\<lambda>t. (pre @ prim # scene) ! primIndex t) (mesh_triangles (length pre) prim)
          = map (\<lambda>k. (pre @ prim # scene) ! k) (map primIndex (mesh_triangles (length pre) prim))"
    by simp
  also have "\<dots> = replicate (length (mesh_triangles 0 prim)) prim"
    by (simp only: mesh_triangles_index(3)) (simp add: map_replicate_const)
  finally have head: "map (\<lambda>t. (pre @ prim # scene) ! primIndex t) (mesh_triangles (length pre) prim)
          = replicate (length (mesh_triangles 0 prim)) prim" .
  show ?case
    using Cons.IH [of "pre @ [prim]"] head by simp
qed

lemma owner_with_mesh:
  "concat (map (\<lambda>prim. replicate (length (mesh_triangles 0 prim)) prim) (with_mesh scene))
     = concat (map (\<lambda>prim. replicate (length (mesh_triangles 0 prim)) prim) scene)"
  by (induction scene) (simp_all add: with_mesh_def mesh_triangles_None)

lemma scene_triangles_primIndex:
  "t \<in> set (scene_triangles i scene) \<Longrightarrow> i \<le> primIndex t \<and> primIndex t < i + length scene"
proof (induction scene arbitrary: i)
  case Nil
  then show ?case by simp
next
  case (Cons prim scene)
  from Cons.prems consider "t \<in> set (mesh_triangles i prim)" | "t \<in> set (scene_triangles (Suc i) scene)"
    by auto
  then show ?case
  proof cases
    case 1
    then have "primIndex t = i"
      by (auto simp: mesh_triangles_def face_triangle_def split: option.splits)
    then show ?thesis by simp
  next
    case 2
    from Cons.IH [OF this] show ?thesis by simp
  qed
qed

lemma leaf_loop_loaded:
  assumes "map loaded tris = map loaded tris'"
  shows "leaf_loop ti tris ray minT xs acc = leaf_loop ti tris' ray minT xs acc"
proof (induction xs arbitrary: acc)
  case Nil
  show ?case by simp
next
  case (Cons i xs)
  have len: "length tris = length tris'"
    using assms by (rule map_eq_imp_length_eq)
  show ?case
  proof (cases "i < length tris")
    case False
    with len show ?thesis by simp
  next
    case True
    have "map loaded tris ! i = map loaded tris' ! i"
      using assms by simp
    then have "loaded (tris ! i) = loaded (tris' ! i)"
      using True len by simp
    with True len Cons.IH show ?thesis
      by (simp split: option.split)
  qed
qed

lemma Intersect_rec_loaded:
  assumes "map loaded tris = map loaded tris'"
  shows "Intersect_rec bi ti nodes tris ray minT depth idx st
           = Intersect_rec bi ti nodes tris' ray minT depth idx st"
proof (induction depth arbitrary: idx st)
  case 0
  show ?case by simp
next
  case (Suc depth)
  show ?case
    by (simp add: Suc.IH leaf_loop_loaded [OF assms] Let_def
        split: option.split sum.split prod.split)
qed

lemma triangle_bound_loaded:
  "loaded t = loaded t' \<Longrightarrow> triangle_bound env k t = triangle_bound env k t'"
  by (simp add: triangle_bound_def)

lemma triangle_bounds_loaded:
  assumes "map loaded tris = map loaded tris'"
  shows "triangle_bounds env k tris = triangle_bounds env k tris'"
proof (rule nth_equalityI)
  have len: "length tris = length tris'"
    using assms by (rule map_eq_imp_length_eq)
  then show "length (triangle_bounds env k tris) = length (triangle_bounds env k tris')"
    by simp
  fix i assume "i < length (triangle_bounds env k tris)"
  then have i: "i < length tris" by simp
  have "map loaded tris ! i = map loaded tris' ! i"
    using assms by simp
  then have "loaded (tris ! i) = loaded (tris' ! i)"
    using i len by simp
  with i len show "triangle_bounds env k tris ! i = triangle_bounds env k tris' ! i"
    by (simp add: triangle_bounds_nth triangle_bound_def)
qed

lemma Intersect_cong:
  assumes l: "map loaded tris = map loaded tris'"
    and f: "map faceIndex tris = map faceIndex tris'"
    and p: "map (\<lambda>t. PrimitiveAt scene (primIndex t)) tris
              = map (\<lambda>t. PrimitiveAt scene' (primIndex t)) tris'"
  shows "Intersect bi ti \<lparr>accel_triangles = tris, accel_nodes = nodes\<rparr> scene ray minT maxT0 depth
           = Intersect bi ti \<lparr>accel_triangles = tris', accel_nodes = nodes\<rparr> scene' ray minT maxT0
               depth"
proof -
  have len: "length tris = length tris'"
    using l by (rule map_eq_imp_length_eq)
  have fk: "faceIndex (tris ! k) = faceIndex (tris' ! k)" if "k < length tris'" for k
  proof -
    have "map faceIndex tris ! k = map faceIndex tris' ! k"
      using f by simp
    then show ?thesis using that len by simp
  qed
  have pk: "PrimitiveAt scene (primIndex (tris ! k)) = PrimitiveAt scene' (primIndex (tris' ! k))"
    if "k < length tris'" for k
  proof -
    have "map (\<lambda>t. PrimitiveAt scene (primIndex t)) tris ! k
              = map (\<lambda>t. PrimitiveAt scene' (primIndex t)) tris' ! k"
      using p by simp
    then show ?thesis using that len by simp
  qed
  have fin: "and_then (read_at tris k)
               (\<lambda>tri. and_then (PrimitiveAt scene (primIndex tri))
                  (\<lambda>prim. Inr (Some \<lparr>isect_prim = prim, isect_p = q, isect_b = uv,
                                       isect_face = faceIndex tri, isect_t = t\<rparr>)))
             = and_then (read_at tris' k)
               (\<lambda>tri. and_then (PrimitiveAt scene' (primIndex tri))
                  (\<lambda>prim. Inr (Some \<lparr>isect_prim = prim, isect_p = q, isect_b = uv,
                                       isect_face = faceIndex tri, isect_t = t\<rparr>)))"
    for k q uv t
    by (cases "k < length tris'") (simp_all add: read_at_def len fk pk)
  show ?thesis
    unfolding Intersect_def
    by (simp add: Intersect_rec_loaded [OF l] fin split: option.split sum.split prod.split)
qed

lemma PrimitiveAt_owner:
  "map (\<lambda>t. PrimitiveAt scene (primIndex t)) (scene_triangles 0 scene)
     = map Inr (concat (map (\<lambda>prim. replicate (length (mesh_triangles 0 prim)) prim) scene))"
proof -
  have "map (\<lambda>t. PrimitiveAt scene (primIndex t)) (scene_triangles 0 scene)
          = map (\<lambda>t. Inr (scene ! primIndex t)) (scene_triangles 0 scene)"
  proof (rule map_cong [OF refl])
    fix t assume "t \<in> set (scene_triangles 0 scene)"
    from scene_triangles_primIndex [OF this]
    show "PrimitiveAt scene (primIndex t) = Inr (scene ! primIndex t)"
      by (simp add: PrimitiveAt_def read_at_def)
  qed
  also have "\<dots> = map Inr (map (\<lambda>t. ([] @ scene) ! primIndex t)
                              (scene_triangles (length ([]::Primitive list)) scene))"
    by simp
  finally show ?thesis
    by (simp only: scene_triangles_owner)
qed

lemma Build_Inr_cases:
  obtains (fault) "Build env scene this = Inl OutOfBounds"
      "\<not> (accel_triangles this = [] \<and> scene_readable scene)"
    | (built) nodes where "accel_triangles this = []" "scene_readable scene"
      "Build env scene this
         = Inr (True, \<lparr>accel_triangles = scene_triangles 0 scene, accel_nodes = nodes\<rparr>)"
      "Build_rec env (triangle_bounds env 0 (scene_triangles 0 scene)) [] 0
         (length (scene_triangles 0 scene)) = Inr (nodes, 0)"
proof (cases "accel_triangles this = [] \<and> scene_readable scene")
  case False
  then have "Build env scene this = Inl OutOfBounds"
    using Build_again Build_unreadable by blast
  from fault [OF this False] show ?thesis .
next
  case True
  obtain blk where
    b: "Build_rec env (triangle_bounds env 0 (scene_triangles 0 scene)) [] 0
          (length (scene_triangles 0 scene)) = Inr (blk, 0)"
    using Build_rec_built [of "length (scene_triangles 0 scene)"
        "triangle_bounds env 0 (scene_triangles 0 scene)" env "[]" 0]
    by auto
  have "Build env scene this
          = Inr (True, \<lparr>accel_triangles = scene_triangles 0 scene, accel_nodes = blk\<rparr>)"
    using True b by (simp add: Build_def create_triaccels_eq)
  with True b show ?thesis by (intro built) simp_all
qed

text \<open>
  Claim C7. \<open>Build\<close> of a scene and \<open>Build\<close> of the same scene without its mesh-less
  primitives (\<open>with_mesh\<close>), in the same surroundings, end alike: either both are
  undefined, or both return \<open>true\<close>
  with the same nodes and the same triangles up to the renumbering of \<^verbatim>\<open>primIndex\<close> (the
  same face indices and the same loaded vertices, in the same order), and then every
  \<open>Intersect\<close> query gives the same outcome on the two accelerators, each asked with its
  own scene: the same hit or no hit, and on a hit the same primitive, point, barycentric
  coordinates, face and distance. A primitive without a mesh contributes nothing.
\<close>

theorem Build_skips_absent_meshes:
  "rel_sum (=)
     (\<lambda>r r'. fst r = fst r' \<and> accel_nodes (snd r) = accel_nodes (snd r')
        \<and> map faceIndex (accel_triangles (snd r)) = map faceIndex (accel_triangles (snd r'))
        \<and> map loaded (accel_triangles (snd r)) = map loaded (accel_triangles (snd r'))
        \<and> (\<forall>bi ti ray minT maxT0 depth.
              Intersect bi ti (snd r) scene ray minT maxT0 depth
                = Intersect bi ti (snd r') (with_mesh scene) ray minT maxT0 depth))
     (Build env scene this) (Build env (with_mesh scene) this)"
proof (cases rule: Build_Inr_cases [of env scene this])
  case fault
  then have "Build env (with_mesh scene) this = Inl OutOfBounds"
    using Build_again Build_unreadable scene_readable_with_mesh by blast
  with fault show ?thesis by simp
next
  case (built nodes)
  define T where "T = scene_triangles 0 scene"
  define T' where "T' = scene_triangles 0 (with_mesh scene)"
  have l: "map loaded T = map loaded T'" and f: "map faceIndex T = map faceIndex T'"
    unfolding T_def T'_def
    using scene_triangles_with_mesh [of 0 scene 0] by simp_all
  have len: "length T = length T'"
    using l by (rule map_eq_imp_length_eq)
  have p: "map (\<lambda>t. PrimitiveAt scene (primIndex t)) T
             = map (\<lambda>t. PrimitiveAt (with_mesh scene) (primIndex t)) T'"
    unfolding T_def T'_def by (simp only: PrimitiveAt_owner owner_with_mesh)
  have "Build_rec env (triangle_bounds env 0 T') [] 0 (length T') = Inr (nodes, 0)"
    using built(4) triangle_bounds_loaded [OF l, of env 0] len by (simp add: T_def)
  then have b': "Build env (with_mesh scene) this
          = Inr (True, \<lparr>accel_triangles = T', accel_nodes = nodes\<rparr>)"
    using built(1,2) by (simp add: Build_def create_triaccels_eq scene_readable_with_mesh T'_def)
  have "Intersect bi ti \<lparr>accel_triangles = T, accel_nodes = nodes\<rparr> scene ray minT maxT0 depth
          = Intersect bi ti \<lparr>accel_triangles = T', accel_nodes = nodes\<rparr> (with_mesh scene) ray minT
              maxT0 depth" for bi ti ray minT maxT0 depth
    by (rule Intersect_cong [OF l f p])
  then show ?thesis
    using built(3) b' l f by (simp add: T_def)
qed

lemma with_mesh_gap: "with_mesh gap_scene = far_first_scene"
  by (simp add: with_mesh_def gap_scene_def far_first_scene_def planes_prim_def)

text \<open>
  The theorem at \<open>gap_scene\<close>, a primitive without a mesh followed by the primitive of
  \<open>far_first_scene\<close>: the triangles name primitive \<open>1\<close> instead of \<open>0\<close>, the nodes are the
  same, and the query along \<open>x_ray\<close> has the same outcome.
\<close>

theorem Build_skips_absent_meshes_witness:
  "with_mesh gap_scene = far_first_scene
   \<and> Build example_env gap_scene Accel_BVH_new = Inr (True, far_first_accel 1)
   \<and> Build example_env (with_mesh gap_scene) Accel_BVH_new = Inr (True, far_first_accel 0)
   \<and> accel_nodes (far_first_accel 1) = accel_nodes (far_first_accel 0)
   \<and> Intersect x_axis_bound_test x_axis_triangle_test (far_first_accel 1) gap_scene x_ray
        (Fin 0) PInf 3
       = Intersect x_axis_bound_test x_axis_triangle_test (far_first_accel 0) (with_mesh gap_scene)
           x_ray (Fin 0) PInf 3"
proof -
  have b0: "Build example_env (with_mesh gap_scene) Accel_BVH_new = Inr (True, far_first_accel 0)"
    using Build_far_first by (simp add: with_mesh_gap)
  note T = Build_skips_absent_meshes [of gap_scene example_env Accel_BVH_new]
  have n: "accel_nodes (far_first_accel 1) = accel_nodes (far_first_accel 0)"
    using T by (simp add: Build_gap b0)
  have i: "Intersect x_axis_bound_test x_axis_triangle_test (far_first_accel 1) gap_scene x_ray
        (Fin 0) PInf 3
       = Intersect x_axis_bound_test x_axis_triangle_test (far_first_accel 0) (with_mesh gap_scene)
           x_ray (Fin 0) PInf 3"
    using T by (simp add: Build_gap b0)
  show ?thesis
    by (intro conjI) (rule with_mesh_gap, rule Build_gap, rule b0, rule n, rule i)
qed

section \<open>Nearest hit\<close>

text \<open>
  Claim C3. Let \<open>Build\<close> have returned the accelerator \<open>st\<close> for the scene, let the box
  test be conservative for its triangles and let the triangle test filter by the window.
  If some triangle is met by the ray inside \<open>[minT, maxT0]\<close>, then \<open>Intersect\<close>, given a
  depth count of at least the number of nodes, returns a hit; the hit names a triangle
  \<open>i\<close> that the ray meets inside the window, with that triangle's distance, barycentric
  coordinates, face index and primitive, and the point \<open>o + d * t\<close>; and no triangle of
  the accelerator is met inside the window at a smaller distance. The statement does not
  depend on where in the scene the triangles stand, so the order of insertion does not
  matter.
\<close>

theorem Intersect_reports_nearest:
  assumes build: "Build env scene this = Inr (ok, st)"
    and cons: "bound_test_conservative bi ti env (accel_triangles st) ray"
    and win: "window_filters ti (accel_triangles st) ray"
    and cand: "candidate ti (accel_triangles st) ray minT maxT0 j uvt"
    and depth: "length (accel_nodes st) \<le> depth"
  shows "\<exists>isect i u v.
           Intersect bi ti st scene ray minT maxT0 depth = Some (Inr (Some isect))
           \<and> candidate ti (accel_triangles st) ray minT maxT0 i (u, v, isect_t isect)
           \<and> isect_b isect = (u, v)
           \<and> isect_face isect = faceIndex (accel_triangles st ! i)
           \<and> PrimitiveAt scene (primIndex (accel_triangles st ! i)) = Inr (isect_prim isect)
           \<and> isect_p isect = add_TVec3 (Ray_o ray) (scale_TVec3 (Ray_d ray) (isect_t isect))
           \<and> (\<forall>k w. candidate ti (accel_triangles st) ray minT maxT0 k w
                  \<longrightarrow> isect_t isect \<le> snd (snd w))"
proof -
  define tris where "tris = accel_triangles st"
  define nodes where "nodes = accel_nodes st"
  define st0 where "st0 = \<lparr>maxT = maxT0, minIndex_minB = None\<rparr>"
  have tris_scene: "tris = scene_triangles 0 scene"
    and t: "built env (triangle_bounds env 0 tris) 0 0 (length tris) nodes"
    using Build_Inr_built(2,3) [OF build] by (simp_all add: tris_def nodes_def)
  have scan: "Intersect_rec bi ti nodes tris ray minT depth 0 st0
                = Some (leaf_loop ti tris ray minT [0..<length tris] (False, st0))"
    using Intersect_rec_scan [OF cons [folded tris_def] t, of "[]" depth "[]" minT st0] depth
    by (simp add: nodes_def)
  obtain res where
    run: "leaf_loop ti tris ray minT [0..<length tris] (False, st0) = Inr res"
    and n: "nearest_result ti tris ray minT (maxT st0) (set [0..<length tris]) (False, st0) res"
    using leaf_loop_nearest [OF win [folded tris_def], of "[0..<length tris]" minT False st0]
    by auto
  have all: "k \<in> set [0..<length tris]" if "candidate ti tris ray minT maxT0 k w" for k w
    using that by (simp add: candidate_def)
  have cj: "candidate ti tris ray minT (maxT st0) j uvt"
    using cand by (simp add: tris_def st0_def)
  have ex: "\<exists>i\<in>set [0..<length tris]. \<exists>w. candidate ti tris ray minT (maxT st0) i w"
    using cj all [of j uvt] by (intro bexI [of _ j] exI [of _ uvt]) (simp_all add: st0_def)
  from n ex have hit: "fst res"
    and found: "\<exists>i\<in>set [0..<length tris]. \<exists>u v.
                  candidate ti tris ray minT (maxT st0) i (u, v, maxT (snd res))
                  \<and> minIndex_minB (snd res) = Some (i, u, v)"
    and least: "\<forall>i\<in>set [0..<length tris]. \<forall>w.
                  candidate ti tris ray minT (maxT st0) i w \<longrightarrow> maxT (snd res) \<le> snd (snd w)"
    unfolding nearest_result_def by simp_all
  from found obtain i u v where
    c: "candidate ti tris ray minT maxT0 i (u, v, maxT (snd res))"
    and m: "minIndex_minB (snd res) = Some (i, u, v)"
    by (auto simp: st0_def)
  have i: "i < length tris"
    using c by (simp add: candidate_def)
  then have "tris ! i \<in> set (scene_triangles 0 scene)"
    using tris_scene by simp
  from scene_triangles_primIndex [OF this]
  have prim: "PrimitiveAt scene (primIndex (tris ! i)) = Inr (scene ! primIndex (tris ! i))"
    by (simp add: PrimitiveAt_def read_at_def)
  define isect where
    "isect = \<lparr>isect_prim = scene ! primIndex (tris ! i),
              isect_p = add_TVec3 (Ray_o ray) (scale_TVec3 (Ray_d ray) (maxT (snd res))),
              isect_b = (u, v), isect_face = faceIndex (tris ! i), isect_t = maxT (snd res)\<rparr>"
  have r: "Intersect bi ti st scene ray minT maxT0 depth = Some (Inr (Some isect))"
    using scan run hit m i prim
    by (cases res)
       (simp add: Intersect_def tris_def [symmetric] nodes_def [symmetric] st0_def [symmetric]
          isect_def)
  have l: "isect_t isect \<le> snd (snd w)" if cw: "candidate ti tris ray minT maxT0 k w" for k w
  proof -
    have "candidate ti tris ray minT (maxT st0) k w"
      using cw by (simp add: st0_def)
    with least all [OF cw] have "maxT (snd res) \<le> snd (snd w)"
      by blast
    then show ?thesis by (simp add: isect_def)
  qed
  have "Intersect bi ti st scene ray minT maxT0 depth = Some (Inr (Some isect))
           \<and> candidate ti tris ray minT maxT0 i (u, v, isect_t isect)
           \<and> isect_b isect = (u, v)
           \<and> isect_face isect = faceIndex (tris ! i)
           \<and> PrimitiveAt scene (primIndex (tris ! i)) = Inr (isect_prim isect)
           \<and> isect_p isect = add_TVec3 (Ray_o ray) (scale_TVec3 (Ray_d ray) (isect_t isect))
           \<and> (\<forall>k w. candidate ti tris ray minT maxT0 k w \<longrightarrow> isect_t isect \<le> snd (snd w))"
    using r c prim l by (simp add: isect_def)
  then show ?thesis
    unfolding tris_def by blast
qed

lemma x_axis_window_filters: "window_filters x_axis_triangle_test tris ray"
  by (simp add: window_filters_def x_axis_triangle_test_def split: prod.split)

lemma plane_triangles_cases:
  assumes "tri \<in> set (plane_triangles i cs)"
  obtains j c where "tri = plane_triangle i j c"
  using assms by (auto simp: plane_triangles_def dest: in_set_zipE)

lemma x_axis_conservative:
  "bound_test_conservative x_axis_bound_test x_axis_triangle_test example_env
     (plane_triangles i cs) ray"
proof -
  have "x_axis_bound_test B ray lo hi"
    if e: "encloses B (triangle_bound example_env k (plane_triangle i j c))"
      and h: "x_axis_triangle_test (loaded (plane_triangle i j c)) ray lo hi \<noteq> None"
    for B lo hi j c k
  proof -
    have w: "lo \<le> Fin c" "Fin c \<le> hi"
      using h by (simp_all add: x_axis_triangle_test_def plane_triangle_def split: if_splits)
    have b: "TVec3_x (bound_min B) \<le> Fin (c - 1 / 1024)"
      "Fin (c + 1 / 1024) \<le> TVec3_x (bound_max B)"
      using e by (simp_all add: plane_bound plane_box_def encloses_def Vec3_le_def)
    have "TVec3_x (bound_min B) \<le> Fin c"
      by (rule order_trans [OF b(1)]) simp
    then have "TVec3_x (bound_min B) \<le> hi"
      using w(2) by (rule order_trans)
    moreover have "Fin c \<le> TVec3_x (bound_max B)"
      by (rule order_trans [OF _ b(2)]) simp
    with w(1) have "lo \<le> TVec3_x (bound_max B)"
      by (rule order_trans)
    ultimately show ?thesis
      by (simp add: x_axis_bound_test_def)
  qed
  note box = this
  show ?thesis
    unfolding bound_test_conservative_def
  proof (intro allI impI)
    fix k B lo hi
    assume k: "k < length (plane_triangles i cs)"
      and a: "encloses B (triangle_bound example_env k (plane_triangles i cs ! k))
              \<and> x_axis_triangle_test (loaded (plane_triangles i cs ! k)) ray lo hi \<noteq> None"
    from k have "plane_triangles i cs ! k \<in> set (plane_triangles i cs)"
      by simp
    then obtain j c where "plane_triangles i cs ! k = plane_triangle i j c"
      by (rule plane_triangles_cases)
    with a box [of B k j c lo hi] show "x_axis_bound_test B ray lo hi"
      by simp
  qed
qed

text \<open>
  \<open>Intersect\<close> run on the two accelerators. With the farthest triangle first the window
  shrinks at every triangle, down to \<open>t = 1\<close> at triangle \<open>9\<close> in the second leaf. With the
  nearest triangle first the hit is triangle \<open>0\<close>, and the box of the second leaf, which
  begins at \<open>x = 6 - eps\<close>, lies outside the window \<open>[0, 1]\<close>.
\<close>

lemma Intersect_far_first:
  "Intersect x_axis_bound_test x_axis_triangle_test (far_first_accel 0) far_first_scene x_ray
     (Fin 0) PInf 3 = Some (Inr (Some (plane_isect (planes_prim far_first) 9)))"
  by (simp add: Intersect_def far_first_accel_def far_first_nodes_def plane_box_def
      x_axis_bound_test_def x_axis_triangle_test_def plane_triangles_def plane_triangle_def
      Let_def upt_10 upt_5 PrimitiveAt_def far_first_scene_def x_ray_def eval_nat_numeral
      add_TVec3_def scale_TVec3_def plane_isect_def far_first_def)

lemma Intersect_near_first:
  "Intersect x_axis_bound_test x_axis_triangle_test near_first_accel near_first_scene x_ray
     (Fin 0) PInf 3 = Some (Inr (Some (plane_isect (planes_prim near_first) 0)))"
  by (simp add: Intersect_def near_first_accel_def near_first_nodes_def plane_box_def
      x_axis_bound_test_def x_axis_triangle_test_def plane_triangles_def plane_triangle_def
      Let_def upt_10 upt_5 PrimitiveAt_def near_first_scene_def x_ray_def eval_nat_numeral
      add_TVec3_def scale_TVec3_def plane_isect_def near_first_def)

text \<open>
  The theorem at \<open>far_first_scene\<close>, where the farthest triangle is inserted first, with
  \<open>x_ray\<close> and the window \<open>[0, +infinity]\<close>: all ten triangles are met, and the reported
  hit is the nearest one, triangle \<open>9\<close> at \<open>t = 1\<close>, found in the second leaf.
\<close>

theorem Intersect_reports_nearest_witness:
  "Build example_env far_first_scene Accel_BVH_new = Inr (True, far_first_accel 0)
   \<and> bound_test_conservative x_axis_bound_test x_axis_triangle_test example_env
        (accel_triangles (far_first_accel 0)) x_ray
   \<and> window_filters x_axis_triangle_test (accel_triangles (far_first_accel 0)) x_ray
   \<and> candidate x_axis_triangle_test (accel_triangles (far_first_accel 0)) x_ray (Fin 0) PInf 0
        (Fin (1 / 4), Fin (1 / 4), Fin 10)
   \<and> candidate x_axis_triangle_test (accel_triangles (far_first_accel 0)) x_ray (Fin 0) PInf 9
        (Fin (1 / 4), Fin (1 / 4), Fin 1)
   \<and> length (accel_nodes (far_first_accel 0)) \<le> 3
   \<and> (\<exists>isect. Intersect x_axis_bound_test x_axis_triangle_test (far_first_accel 0)
                  far_first_scene x_ray (Fin 0) PInf 3 = Some (Inr (Some isect))
                \<and> isect_t isect \<le> Fin 1)
   \<and> Intersect x_axis_bound_test x_axis_triangle_test (far_first_accel 0) far_first_scene x_ray
        (Fin 0) PInf 3 = Some (Inr (Some (plane_isect (planes_prim far_first) 9)))"
proof -
  have cons: "bound_test_conservative x_axis_bound_test x_axis_triangle_test example_env
        (accel_triangles (far_first_accel 0)) x_ray"
    using x_axis_conservative [of 0 far_first x_ray] by (simp add: far_first_accel_def)
  have win: "window_filters x_axis_triangle_test (accel_triangles (far_first_accel 0)) x_ray"
    by (rule x_axis_window_filters)
  have c0: "candidate x_axis_triangle_test (accel_triangles (far_first_accel 0)) x_ray (Fin 0) PInf 0
        (Fin (1 / 4), Fin (1 / 4), Fin 10)"
    by (simp add: candidate_def far_first_accel_def x_axis_triangle_test_def
        plane_triangles_def plane_triangle_def far_first_def upt_10)
  have c9: "candidate x_axis_triangle_test (accel_triangles (far_first_accel 0)) x_ray (Fin 0) PInf 9
        (Fin (1 / 4), Fin (1 / 4), Fin 1)"
    by (simp add: candidate_def far_first_accel_def x_axis_triangle_test_def
        plane_triangles_def plane_triangle_def far_first_def upt_10)
  have d: "length (accel_nodes (far_first_accel 0)) \<le> 3"
    by (simp add: far_first_accel_def far_first_nodes_def)
  from Intersect_reports_nearest [OF Build_far_first cons win c0 d]
  obtain isect where
    r: "Intersect x_axis_bound_test x_axis_triangle_test (far_first_accel 0)
          far_first_scene x_ray (Fin 0) PInf 3 = Some (Inr (Some isect))"
    and l: "\<forall>k w. candidate x_axis_triangle_test (accel_triangles (far_first_accel 0)) x_ray
                    (Fin 0) PInf k w \<longrightarrow> isect_t isect \<le> snd (snd w)"
    by blast
  from l c9 have "isect_t isect \<le> Fin 1"
    by fastforce
  with r have e: "\<exists>isect. Intersect x_axis_bound_test x_axis_triangle_test (far_first_accel 0)
                  far_first_scene x_ray (Fin 0) PInf 3 = Some (Inr (Some isect))
                \<and> isect_t isect \<le> Fin 1"
    by blast
  show ?thesis
    by (intro conjI)
      (rule Build_far_first, rule cons, rule win, rule c0, rule c9, rule d, rule e,
       rule Intersect_far_first)
qed

end
